theory Spec2Isabelle
  imports Main
begin

section \<open>JavaScript values\<close>

text \<open>
  The values that travel through the component: paint and layout objects, filters, layer and
  source descriptors. \<open>undefined\<close> is \<open>None\<close> of an option type. Numbers are integers here
  (nothing below computes with them). An object is its list of entries in the order of
  \<open>Object.keys\<close>; a JavaScript object holds each key once.
\<close>

datatype jsval =
    JNull
  | JBool bool
  | JNum int
  | JStr string
  | JArr "jsval list"
  | JObj "(string \<times> jsval) list"

type_synonym jsobj = "(string \<times> jsval) list"

text \<open>A function value (a mouse-event handler) is known by its identity only.\<close>

type_synonym handler = nat

definition keys :: "jsobj \<Rightarrow> string list" where
  "keys obj = map fst obj"

definition get :: "jsobj \<Rightarrow> string \<Rightarrow> jsval option" where
  "get obj k = map_of obj k"

text \<open>\<open>obj[k] = v\<close>: an existing key keeps its place, a new key goes last.\<close>

fun set_key :: "string \<Rightarrow> jsval \<Rightarrow> jsobj \<Rightarrow> jsobj" where
  "set_key k v [] = [(k, v)]"
| "set_key k v ((k', v') # obj) =
     (if k' = k then (k, v) # obj else (k', v') # set_key k v obj)"

text \<open>The object spread \<open>{...base, ...extra}\<close>: the entries of \<open>extra\<close> win.\<close>

definition spread :: "jsobj \<Rightarrow> jsobj \<Rightarrow> jsobj" where
  "spread base extra = fold (\<lambda>(k, v). set_key k v) extra base"

text \<open>Spreading \<open>undefined\<close> adds nothing.\<close>

definition spread_opt :: "jsobj \<Rightarrow> jsobj option \<Rightarrow> jsobj" where
  "spread_opt base extra = (case extra of None \<Rightarrow> base | Some e \<Rightarrow> spread base e)"

text \<open>Truthiness of a value that may be \<open>undefined\<close>, as \<open>||\<close> and \<open>if\<close> read it.\<close>

fun truthy :: "jsval option \<Rightarrow> bool" where
  "truthy None = False"
| "truthy (Some JNull) = False"
| "truthy (Some (JBool b)) = b"
| "truthy (Some (JNum n)) = (n \<noteq> 0)"
| "truthy (Some (JStr s)) = (s \<noteq> [])"
| "truthy (Some (JArr xs)) = True"
| "truthy (Some (JObj obj)) = True"

text \<open>\<open>a || b\<close>.\<close>

definition or_else :: "jsval option \<Rightarrow> jsval \<Rightarrow> jsval" where
  "or_else a b = (case a of None \<Rightarrow> b | Some x \<Rightarrow> if truthy (Some x) then x else b)"

subsection \<open>Values and their identity\<close>

text \<open>
  \<open>!==\<close> compares two primitive values by what they are, and two arrays or objects by
  their identity: an array that is built again with the same elements is another array.
  The values of a paint or layout object are the ones that the component compares with
  \<open>!==\<close>, so they are kept with an identity, a number. The identity is read only when
  the content is an array or an object.
\<close>

datatype held = Held nat jsval

fun content :: "held \<Rightarrow> jsval" where
  "content (Held r v) = v"

definition contents :: "(string \<times> held) list \<Rightarrow> jsobj" where
  "contents obj = map (\<lambda>(k, h). (k, content h)) obj"

fun composite :: "jsval \<Rightarrow> bool" where
  "composite (JArr xs) = True"
| "composite (JObj obj) = True"
| "composite JNull = False"
| "composite (JBool b) = False"
| "composite (JNum n) = False"
| "composite (JStr s) = False"

text \<open>\<open>a === b\<close> for two values that may be \<open>undefined\<close>.\<close>

fun identical :: "held option \<Rightarrow> held option \<Rightarrow> bool" where
  "identical None None = True"
| "identical None (Some b) = False"
| "identical (Some a) None = False"
| "identical (Some (Held r v)) (Some (Held r' v')) =
     (if composite v \<or> composite v' then composite v \<and> composite v' \<and> r = r' else v = v')"

subsection \<open>\<open>isEqual\<close>: the deep-equal package\<close>

text \<open>
  \<open>const isEqual = require('deep-equal')\<close> is an external package, and what it answers is
  not decided here: every function below that calls it takes it as its first argument
  \<open>isEqual\<close>, a function of the contents of two values that may be \<open>undefined\<close>, and every
  property holds whatever that function is.
\<close>

subsection \<open>\<open>toCamelCase\<close>\<close>

text \<open>
  \<open>str.replace(/(?:^\w|[A-Z]|\b\w)/g, (letter, index) =>
      index === 0 ? letter.toLowerCase() : letter.toUpperCase()).replace(/[\s+]|-/g, '')\<close>
  on ASCII strings. Every alternative of the first pattern matches one character: a capital
  letter, or a word character with no word character before it.
\<close>

definition is_upper :: "char \<Rightarrow> bool" where
  "is_upper c = (65 \<le> (of_char c :: nat) \<and> (of_char c :: nat) \<le> 90)"

definition is_lower :: "char \<Rightarrow> bool" where
  "is_lower c = (97 \<le> (of_char c :: nat) \<and> (of_char c :: nat) \<le> 122)"

definition is_digit :: "char \<Rightarrow> bool" where
  "is_digit c = (48 \<le> (of_char c :: nat) \<and> (of_char c :: nat) \<le> 57)"

definition is_word :: "char \<Rightarrow> bool" where
  "is_word c = (is_upper c \<or> is_lower c \<or> is_digit c \<or> c = CHR ''_'')"

definition is_space :: "char \<Rightarrow> bool" where
  "is_space c = ((of_char c :: nat) \<in> {9, 10, 11, 12, 13, 32})"

definition toLowerCase :: "char \<Rightarrow> char" where
  "toLowerCase c = (if is_upper c then char_of ((of_char c :: nat) + 32) else c)"

definition toUpperCase :: "char \<Rightarrow> char" where
  "toUpperCase c = (if is_lower c then char_of ((of_char c :: nat) - 32) else c)"

text \<open>
  \<open>first\<close>: the character is at index 0; \<open>prevWord\<close>: the character before it is a word
  character (so there is no word boundary in front of it).
\<close>

fun replaceLetters :: "bool \<Rightarrow> bool \<Rightarrow> string \<Rightarrow> string" where
  "replaceLetters first prevWord [] = []"
| "replaceLetters first prevWord (c # cs) =
     (if is_upper c \<or> (is_word c \<and> \<not> prevWord)
      then (if first then toLowerCase c else toUpperCase c)
      else c) # replaceLetters False (is_word c) cs"

definition toCamelCase :: "string \<Rightarrow> string" where
  "toCamelCase str =
     filter (\<lambda>c. \<not> (is_space c \<or> c = CHR ''+'' \<or> c = CHR ''-'')) (replaceLetters True False str)"

definition types :: "string list" where
  "types = [''symbol'', ''line'', ''fill'', ''fill-extrusion'', ''circle'']"

definition eventToHandler :: "(string \<times> string) list" where
  "eventToHandler =
     [(''mousemove'', ''OnMouseMove''),
      (''mouseenter'', ''OnMouseEnter''),
      (''mouseleave'', ''OnMouseLeave''),
      (''mousedown'', ''OnMouseDown''),
      (''mouseup'', ''OnMouseUp''),
      (''click'', ''OnClick'')]"

section \<open>The external map widget\<close>

text \<open>
  The GeoJSON payload \<open>props.data\<close> is a URL string or a GeoJSON object. \<open>!==\<close> compares two
  strings by their characters and two objects by their identity, which the object carries
  here as a number.
\<close>

datatype source_data = DataUrl string | DataObject nat jsobj

fun strict_equal :: "source_data \<Rightarrow> source_data \<Rightarrow> bool" where
  "strict_equal (DataUrl s) (DataUrl t) = (s = t)"
| "strict_equal (DataObject r x) (DataObject r' y) = (r = r')"
| "strict_equal (DataUrl s) (DataObject r y) = False"
| "strict_equal (DataObject r x) (DataUrl t) = False"

fun data_value :: "source_data \<Rightarrow> jsval" where
  "data_value (DataUrl s) = JStr s"
| "data_value (DataObject r obj) = JObj obj"

text \<open>The calls of the map's API that change the map or its listeners.\<close>

datatype map_call =
    AddSource string jsobj
  | RemoveSource string
  | AddLayer jsobj "string option"
  | RemoveLayer string
  | SetData string source_data
  | SetFilter string jsval
  | SetPaintProperty string string "jsval option"
  | SetLayoutProperty string string "jsval option"
  | MoveLayer string "string option"
  | OnLayer string string handler
  | OffLayer string string handler
  | OnMap string
  | OffMap string

text \<open>
  The map is a third-party widget. The model keeps what the component can observe of it
  through \<open>getStyle\<close>, \<open>getSource\<close> and \<open>getLayer\<close> (whether a style is loaded, which source
  and layer ids are registered), and the sequence of the calls made on it. \<open>OnMap\<close> and
  \<open>OffMap\<close> are \<open>map.on(event, this.onStyleDataChange)\<close> and its \<open>off\<close>.
\<close>

record mapbox =
  style :: "jsobj option"
  sources :: "string list"
  layers :: "string list"
  calls :: "map_call list"

definition getStyle :: "mapbox \<Rightarrow> jsobj option" where
  "getStyle m = style m"

text \<open>\<open>getSource\<close> and \<open>getLayer\<close> return the registered object, named by its id, or \<open>undefined\<close>.\<close>

definition getSource :: "string \<Rightarrow> mapbox \<Rightarrow> string option" where
  "getSource i m = (if i \<in> set (sources m) then Some i else None)"

definition getLayer :: "string \<Rightarrow> mapbox \<Rightarrow> string option" where
  "getLayer i m = (if i \<in> set (layers m) then Some i else None)"

definition layer_id :: "jsobj \<Rightarrow> string" where
  "layer_id layer = (case get layer ''id'' of Some (JStr i) \<Rightarrow> i | _ \<Rightarrow> [])"

text \<open>
  What a call changes among the registered sources and layers. Adding an identifier that
  is registered already leaves the registrations as they are.
\<close>

fun register :: "map_call \<Rightarrow> mapbox \<Rightarrow> mapbox" where
  "register (AddSource i src) m =
     m\<lparr>sources := (if i \<in> set (sources m) then sources m else sources m @ [i])\<rparr>"
| "register (RemoveSource i) m = m\<lparr>sources := removeAll i (sources m)\<rparr>"
| "register (AddLayer layer before_id) m =
     m\<lparr>layers := (if layer_id layer \<in> set (layers m) then layers m
                   else layers m @ [layer_id layer])\<rparr>"
| "register (RemoveLayer i) m = m\<lparr>layers := removeAll i (layers m)\<rparr>"
| "register (SetData src d) m = m"
| "register (SetFilter i f) m = m"
| "register (SetPaintProperty i k v) m = m"
| "register (SetLayoutProperty i k v) m = m"
| "register (MoveLayer i before_id) m = m"
| "register (OnLayer event i h) m = m"
| "register (OffLayer event i h) m = m"
| "register (OnMap event) m = m"
| "register (OffMap event) m = m"

text \<open>Every call is recorded, in order.\<close>

definition perform :: "map_call \<Rightarrow> mapbox \<Rightarrow> mapbox" where
  "perform call m = (register call m)\<lparr>calls := calls m @ [call]\<rparr>"

definition addSource :: "string \<Rightarrow> jsobj \<Rightarrow> mapbox \<Rightarrow> mapbox" where
  "addSource i src = perform (AddSource i src)"

definition removeSource :: "string \<Rightarrow> mapbox \<Rightarrow> mapbox" where
  "removeSource i = perform (RemoveSource i)"

definition addLayer :: "jsobj \<Rightarrow> string option \<Rightarrow> mapbox \<Rightarrow> mapbox" where
  "addLayer layer before_id = perform (AddLayer layer before_id)"

definition removeLayer :: "string \<Rightarrow> mapbox \<Rightarrow> mapbox" where
  "removeLayer i = perform (RemoveLayer i)"

text \<open>\<open>source.setData(data)\<close> on the source object that \<open>getSource\<close> returned.\<close>

definition setData :: "string \<Rightarrow> source_data \<Rightarrow> mapbox \<Rightarrow> mapbox" where
  "setData src d = perform (SetData src d)"

definition setFilter :: "string \<Rightarrow> jsval \<Rightarrow> mapbox \<Rightarrow> mapbox" where
  "setFilter i f = perform (SetFilter i f)"

definition setPaintProperty :: "string \<Rightarrow> string \<Rightarrow> jsval option \<Rightarrow> mapbox \<Rightarrow> mapbox" where
  "setPaintProperty i k v = perform (SetPaintProperty i k v)"

definition setLayoutProperty :: "string \<Rightarrow> string \<Rightarrow> jsval option \<Rightarrow> mapbox \<Rightarrow> mapbox" where
  "setLayoutProperty i k v = perform (SetLayoutProperty i k v)"

definition moveLayer :: "string \<Rightarrow> string option \<Rightarrow> mapbox \<Rightarrow> mapbox" where
  "moveLayer i before_id = perform (MoveLayer i before_id)"

definition on_layer :: "string \<Rightarrow> string \<Rightarrow> handler \<Rightarrow> mapbox \<Rightarrow> mapbox" where
  "on_layer event i h = perform (OnLayer event i h)"

definition off_layer :: "string \<Rightarrow> string \<Rightarrow> handler \<Rightarrow> mapbox \<Rightarrow> mapbox" where
  "off_layer event i h = perform (OffLayer event i h)"

definition on_map :: "string \<Rightarrow> mapbox \<Rightarrow> mapbox" where
  "on_map event = perform (OnMap event)"

definition off_map :: "string \<Rightarrow> mapbox \<Rightarrow> mapbox" where
  "off_map event = perform (OffMap event)"

section \<open>The component\<close>

text \<open>
  \<open>Props\<close>. The per-type properties are read through a computed key
  (\<open>this.props[toCamelCase(type) + 'Paint']\<close>), so they are kept under their key: the
  \<open>Paint\<close> and \<open>Layout\<close> objects in \<open>objectProps\<close>, the six \<open>On...\<close> handlers of each type in
  \<open>handlerProps\<close>. \<open>prop_object\<close> reads such an object as its contents, \<open>prop_held\<close> with the
  identities of its values.
\<close>

record props =
  id_prop :: "string option"
  data :: source_data
  layerOptions :: "jsobj option"
  sourceOptions :: "jsobj option"
  before_prop :: "string option"
  objectProps :: "(string \<times> (string \<times> held) list) list"
  handlerProps :: "(string \<times> handler) list"

definition prop_held :: "props \<Rightarrow> string \<Rightarrow> (string \<times> held) list option" where
  "prop_held p k = map_of (objectProps p) k"

definition prop_object :: "props \<Rightarrow> string \<Rightarrow> jsobj option" where
  "prop_object p k = map_option contents (prop_held p k)"

definition prop_handler :: "props \<Rightarrow> string \<Rightarrow> handler option" where
  "prop_handler p k = map_of (handlerProps p) k"

text \<open>
  The instance: \<open>this.props\<close>, \<open>this.id\<close>, \<open>this.source\<close>, \<open>this.layerIds\<close>, the map of
  \<open>this.context\<close> (which may be missing), and the number of \<open>forceUpdate\<close> requests made to
  the framework.
\<close>

record component =
  props :: props
  this_id :: string
  source :: jsobj
  layerIds :: "string list"
  context_map :: "mapbox option"
  forceUpdates :: nat

text \<open>Calling a method of \<open>undefined\<close> raises a \<open>TypeError\<close>.\<close>

datatype error = TypeError

definition and_then :: "error + 'a \<Rightarrow> ('a \<Rightarrow> error + 'b) \<Rightarrow> error + 'b" where
  "and_then r f = (case r of Inl e \<Rightarrow> Inl e | Inr x \<Rightarrow> f x)"

fun forEach :: "'a list \<Rightarrow> ('a \<Rightarrow> 's \<Rightarrow> error + 's) \<Rightarrow> 's \<Rightarrow> error + 's" where
  "forEach [] f s = Inr s"
| "forEach (x # xs) f s = and_then (f x s) (forEach xs f)"

text \<open>A call \<open>map.f(...)\<close> on the map of the context.\<close>

definition call_map :: "(mapbox \<Rightarrow> mapbox) \<Rightarrow> component \<Rightarrow> error + component" where
  "call_map f c =
     (case context_map c of
        None \<Rightarrow> Inl TypeError
      | Some m \<Rightarrow> Inr (c\<lparr>context_map := Some (f m)\<rparr>))"

text \<open>A query \<open>map.f(...)\<close> whose result decides what is done next.\<close>

definition ask_map :: "(mapbox \<Rightarrow> 'a) \<Rightarrow> component \<Rightarrow> ('a \<Rightarrow> error + component) \<Rightarrow> error + component" where
  "ask_map q c k =
     (case context_map c of
        None \<Rightarrow> Inl TypeError
      | Some m \<Rightarrow> k (q m))"

text \<open>
  The field initialisers of the class. \<open>generateID\<close> (util/uid) is not part of the
  file; the identifier it would return is the parameter \<open>uid\<close>.
\<close>

definition make_source :: "jsobj option \<Rightarrow> source_data \<Rightarrow> jsobj" where
  "make_source options d =
     set_key ''data'' (data_value d) (spread_opt [(''type'', JStr ''geojson'')] options)"

definition GeoJSONLayer :: "props \<Rightarrow> string \<Rightarrow> mapbox option \<Rightarrow> component" where
  "GeoJSONLayer p uid ctx =
     \<lparr>props = p,
      this_id = (case id_prop p of
                   None \<Rightarrow> ''geojson-'' @ uid
                 | Some i \<Rightarrow> if i = [] then ''geojson-'' @ uid else i),
      source = make_source (sourceOptions p) (data p),
      layerIds = [],
      context_map = ctx,
      forceUpdates = 0\<rparr>"

definition buildLayerId :: "component \<Rightarrow> string \<Rightarrow> string" where
  "buildLayerId c type = this_id c @ ''-'' @ type"

definition mapLayerMouseHandlers :: "string \<Rightarrow> component \<Rightarrow> error + component" where
  "mapLayerMouseHandlers type c =
     (let layerId = buildLayerId c type in
      forEach eventToHandler
        (\<lambda>(event, handlerName) c.
           case prop_handler (props c) (toCamelCase type @ handlerName) of
             None \<Rightarrow> Inr c
           | Some h \<Rightarrow> call_map (on_layer event layerId h) c) c)"

definition createLayer :: "string \<Rightarrow> component \<Rightarrow> error + component" where
  "createLayer type c =
     (let layerId = buildLayerId c type;
          c1 = c\<lparr>layerIds := layerIds c @ [layerId]\<rparr>;
          paint = (case prop_object (props c) (toCamelCase type @ ''Paint'') of
                     None \<Rightarrow> [] | Some p \<Rightarrow> p);
          visibility = (if length (keys paint) \<noteq> 0 then ''visible'' else ''none'');
          layout = (case prop_object (props c) (toCamelCase type @ ''Layout'') of
                      None \<Rightarrow> [(''visibility'', JStr visibility)] | Some l \<Rightarrow> l);
          layer = spread_opt
                    [(''id'', JStr layerId),
                     (''source'', JStr (this_id c)),
                     (''type'', JStr type),
                     (''paint'', JObj paint),
                     (''layout'', JObj layout)]
                    (layerOptions (props c))
      in and_then (call_map (addLayer layer (before_prop (props c))) c1)
           (mapLayerMouseHandlers type))"

definition initialize :: "component \<Rightarrow> error + component" where
  "initialize c =
     and_then (call_map (addSource (this_id c) (source c)) c) (\<lambda>c.
     and_then (createLayer ''symbol'' c) (\<lambda>c.
     and_then (createLayer ''line'' c) (\<lambda>c.
     and_then (createLayer ''fill'' c) (\<lambda>c.
     and_then (createLayer ''fill-extrusion'' c) (\<lambda>c.
     createLayer ''circle'' c)))))"

definition unbind :: "component \<Rightarrow> error + component" where
  "unbind c =
     and_then
       (ask_map (getSource (this_id c)) c
          (\<lambda>src. if src \<noteq> None then call_map (removeSource (this_id c)) c else Inr c)) (\<lambda>c.
     and_then
       (forEach types
          (\<lambda>type. forEach eventToHandler
             (\<lambda>(event, handlerName) c.
                case prop_handler (props c) (toCamelCase type @ handlerName) of
                  None \<Rightarrow> Inr c
                | Some h \<Rightarrow> call_map (off_layer event (buildLayerId c type) h) c)) c) (\<lambda>c.
     forEach (layerIds c)
       (\<lambda>lId c. ask_map (getLayer lId) c
          (\<lambda>l. if l \<noteq> None then call_map (removeLayer lId) c else Inr c)) c))"

definition forceUpdate :: "component \<Rightarrow> component" where
  "forceUpdate c = c\<lparr>forceUpdates := forceUpdates c + 1\<rparr>"

definition onStyleDataChange :: "component \<Rightarrow> error + component" where
  "onStyleDataChange c =
     ask_map (getSource (this_id c)) c
       (\<lambda>src. if src = None
              then and_then (unbind c) (\<lambda>c.
                   and_then (initialize c) (\<lambda>c.
                   Inr (forceUpdate c)))
              else Inr c)"

definition componentWillMount :: "component \<Rightarrow> error + component" where
  "componentWillMount c = and_then (initialize c) (call_map (on_map ''styledata''))"

definition componentWillUnmount :: "component \<Rightarrow> error + component" where
  "componentWillUnmount c =
     (case context_map c of
        None \<Rightarrow> Inr c
      | Some m \<Rightarrow>
          if getStyle m = None then Inr c
          else and_then (call_map (off_map ''styledata'') c) unbind)"

text \<open>
  Modelled from the spec: \<open>diff\<close> (util/diff) is imported by the file and is not part of
  it. The spec calls it a shallow diff of the previous and the next object, a shallow
  key comparison, and has the update "apply only changed/removed keys"; it "compute[s] a
  mapping containing every key whose value changed between old and new". So the result
  holds every key whose value in the old object is not the very value it has in the new
  one (\<open>!==\<close>, where a missing key has the value \<open>undefined\<close>): a key that is added,
  changed or removed, with its value in the new object, which is \<open>undefined\<close> for a key
  that is removed. The spec gives no order to the keys of the result; they are the keys of
  the old object, then those that the new object adds. An object that is \<open>undefined\<close> has
  no keys.
\<close>

definition diff :: "(string \<times> held) list option \<Rightarrow> (string \<times> held) list option \<Rightarrow> (string \<times> jsval option) list" where
  "diff obj1 obj2 =
     (let old = (case obj1 of None \<Rightarrow> [] | Some x \<Rightarrow> x);
          new = (case obj2 of None \<Rightarrow> [] | Some y \<Rightarrow> y);
          all_keys = map fst old @ filter (\<lambda>k. k \<notin> set (map fst old)) (map fst new)
      in map (\<lambda>k. (k, map_option content (map_of new k)))
           (filter (\<lambda>k. \<not> identical (map_of old k) (map_of new k)) all_keys))"

text \<open>The body of \<open>types.forEach(type => ...)\<close> in \<open>componentWillReceiveProps\<close>.\<close>

definition receivePropsOfType ::
  "(jsval option \<Rightarrow> jsval option \<Rightarrow> bool) \<Rightarrow> props \<Rightarrow> bool \<Rightarrow> string \<Rightarrow> component \<Rightarrow> error + component" where
  "receivePropsOfType isEqual nextProps layerFilterChanged type c =
     (let layerId = buildLayerId c type;
          paintProp = toCamelCase type @ ''Paint'';
          layoutProp = toCamelCase type @ ''Layout''
      in
      and_then
        (case layerOptions nextProps of
           None \<Rightarrow> Inr c
         | Some options \<Rightarrow>
             if layerFilterChanged
             then call_map (setFilter layerId (or_else (get options ''filter'') (JArr []))) c
             else Inr c) (\<lambda>c.
      and_then
        (if \<not> isEqual (map_option JObj (prop_object nextProps paintProp))
                      (map_option JObj (prop_object (props c) paintProp))
         then forEach (diff (prop_held (props c) paintProp) (prop_held nextProps paintProp))
                (\<lambda>(key, v). call_map (setPaintProperty layerId key v)) c
         else Inr c) (\<lambda>c.
      and_then
        (if \<not> isEqual (map_option JObj (prop_object nextProps layoutProp))
                      (map_option JObj (prop_object (props c) layoutProp))
         then forEach (diff (prop_held (props c) layoutProp) (prop_held nextProps layoutProp))
                (\<lambda>(key, v). call_map (setLayoutProperty layerId key v)) c
         else Inr c) (\<lambda>c.
      and_then
        (forEach eventToHandler
           (\<lambda>(event, handlerName) c.
              let prop = toCamelCase type @ handlerName in
              if prop_handler nextProps prop \<noteq> prop_handler (props c) prop
              then and_then
                     (case prop_handler (props c) prop of
                        None \<Rightarrow> Inr c
                      | Some h \<Rightarrow> call_map (off_layer event layerId h) c) (\<lambda>c.
                     case prop_handler nextProps prop of
                       None \<Rightarrow> Inr c
                     | Some h \<Rightarrow> call_map (on_layer event layerId h) c)
              else Inr c) c) (\<lambda>c.
      if before_prop (props c) \<noteq> before_prop nextProps
      then call_map (moveLayer layerId (before_prop nextProps)) c
      else Inr c)))))"

definition componentWillReceiveProps ::
  "(jsval option \<Rightarrow> jsval option \<Rightarrow> bool) \<Rightarrow> props \<Rightarrow> component \<Rightarrow> error + component" where
  "componentWillReceiveProps isEqual nextProps c =
     and_then
       (if \<not> strict_equal (data nextProps) (data (props c))
        then ask_map (getSource (this_id c)) c
               (\<lambda>src. case src of
                         None \<Rightarrow> Inl TypeError
                       | Some s \<Rightarrow>
                           and_then (call_map (setData s (data nextProps)) c) (\<lambda>c.
                           Inr (c\<lparr>source := make_source (sourceOptions nextProps) (data nextProps)\<rparr>)))
        else Inr c) (\<lambda>c.
     let layerFilterChanged =
           (case layerOptions nextProps of
              None \<Rightarrow> False
            | Some next_options \<Rightarrow>
                (case layerOptions (props c) of
                   None \<Rightarrow> False
                 | Some options \<Rightarrow>
                     \<not> isEqual (get next_options ''filter'') (get options ''filter'')))
     in forEach types (receivePropsOfType isEqual nextProps layerFilterChanged) c)"


section \<open>Call sequences\<close>

text \<open>
  The component, after the calls \<open>cs\<close> have been made on its map one after the other. The
  properties below describe each lifecycle method by the calls it makes.
\<close>

definition performed :: "map_call list \<Rightarrow> component \<Rightarrow> component" where
  "performed cs c = c\<lparr>context_map := map_option (fold perform cs) (context_map c)\<rparr>"

text \<open>The component has properties \<open>p\<close>, identifier \<open>i\<close> and a map in its context.\<close>

definition ready :: "props \<Rightarrow> string \<Rightarrow> component \<Rightarrow> bool" where
  "ready p i c = (props c = p \<and> this_id c = i \<and> context_map c \<noteq> None)"

text \<open>A method leaves the identifier and the properties of the component as they were.\<close>

definition kept :: "component \<Rightarrow> component \<Rightarrow> bool" where
  "kept c c' = (this_id c' = this_id c \<and> props c' = props c)"

text \<open>The calls that register or remove a source or a layer.\<close>

fun structural :: "map_call \<Rightarrow> bool" where
  "structural (AddSource i src) = True"
| "structural (RemoveSource i) = True"
| "structural (AddLayer layer before_id) = True"
| "structural (RemoveLayer i) = True"
| "structural (SetData src d) = False"
| "structural (SetFilter i f) = False"
| "structural (SetPaintProperty i k v) = False"
| "structural (SetLayoutProperty i k v) = False"
| "structural (MoveLayer i before_id) = False"
| "structural (OnLayer event i h) = False"
| "structural (OffLayer event i h) = False"
| "structural (OnMap event) = False"
| "structural (OffMap event) = False"

text \<open>Whether a call is \<open>setFilter\<close>, and whether it is \<open>setPaintProperty\<close> of a key on a layer.\<close>

fun sets_filter :: "map_call \<Rightarrow> bool" where
  "sets_filter (SetFilter i f) = True"
| "sets_filter (AddSource i src) = False"
| "sets_filter (RemoveSource i) = False"
| "sets_filter (AddLayer layer before_id) = False"
| "sets_filter (RemoveLayer i) = False"
| "sets_filter (SetData src d) = False"
| "sets_filter (SetPaintProperty i k v) = False"
| "sets_filter (SetLayoutProperty i k v) = False"
| "sets_filter (MoveLayer i before_id) = False"
| "sets_filter (OnLayer event i h) = False"
| "sets_filter (OffLayer event i h) = False"
| "sets_filter (OnMap event) = False"
| "sets_filter (OffMap event) = False"

fun sets_paint :: "string \<Rightarrow> string \<Rightarrow> map_call \<Rightarrow> bool" where
  "sets_paint layerId key (SetPaintProperty i k v) = (i = layerId \<and> k = key)"
| "sets_paint layerId key (AddSource i src) = False"
| "sets_paint layerId key (RemoveSource i) = False"
| "sets_paint layerId key (AddLayer layer before_id) = False"
| "sets_paint layerId key (RemoveLayer i) = False"
| "sets_paint layerId key (SetData src d) = False"
| "sets_paint layerId key (SetFilter i f) = False"
| "sets_paint layerId key (SetLayoutProperty i k v) = False"
| "sets_paint layerId key (MoveLayer i before_id) = False"
| "sets_paint layerId key (OnLayer event i h) = False"
| "sets_paint layerId key (OffLayer event i h) = False"
| "sets_paint layerId key (OnMap event) = False"
| "sets_paint layerId key (OffMap event) = False"

text \<open>The calls recorded on the map of a result, and the \<open>layerIds\<close> of a result.\<close>

definition calls_of :: "error + component \<Rightarrow> map_call list option" where
  "calls_of r = (case r of Inl e \<Rightarrow> None | Inr c \<Rightarrow> map_option calls (context_map c))"

definition layerIds_of :: "error + component \<Rightarrow> string list option" where
  "layerIds_of r = (case r of Inl e \<Rightarrow> None | Inr c \<Rightarrow> Some (layerIds c))"

text \<open>The filter of the generic layer options of some properties, if there is one.\<close>

definition layer_filter :: "props \<Rightarrow> jsval option" where
  "layer_filter p = (case layerOptions p of None \<Rightarrow> None | Some options \<Rightarrow> get options ''filter'')"



subsection \<open>The calls of \<open>componentWillReceiveProps\<close>\<close>

text \<open>
  The calls that the body of \<open>types.forEach\<close> makes for one layer type, written as lists:
  the filter, the changed paint properties, the changed layout properties, the handlers
  that changed, the move.
\<close>

definition filterCalls :: "props \<Rightarrow> bool \<Rightarrow> string \<Rightarrow> map_call list" where
  "filterCalls nextProps layerFilterChanged layerId =
     (case layerOptions nextProps of
        None \<Rightarrow> []
      | Some options \<Rightarrow>
          if layerFilterChanged
          then [SetFilter layerId (or_else (get options ''filter'') (JArr []))]
          else [])"

definition paintCalls ::
  "(jsval option \<Rightarrow> jsval option \<Rightarrow> bool) \<Rightarrow> props \<Rightarrow> props \<Rightarrow> string \<Rightarrow> string \<Rightarrow> map_call list" where
  "paintCalls isEqual p nextProps layerId paintProp =
     (if \<not> isEqual (map_option JObj (prop_object nextProps paintProp))
                    (map_option JObj (prop_object p paintProp))
      then map (\<lambda>(key, v). SetPaintProperty layerId key v)
             (diff (prop_held p paintProp) (prop_held nextProps paintProp))
      else [])"

definition layoutCalls ::
  "(jsval option \<Rightarrow> jsval option \<Rightarrow> bool) \<Rightarrow> props \<Rightarrow> props \<Rightarrow> string \<Rightarrow> string \<Rightarrow> map_call list" where
  "layoutCalls isEqual p nextProps layerId layoutProp =
     (if \<not> isEqual (map_option JObj (prop_object nextProps layoutProp))
                    (map_option JObj (prop_object p layoutProp))
      then map (\<lambda>(key, v). SetLayoutProperty layerId key v)
             (diff (prop_held p layoutProp) (prop_held nextProps layoutProp))
      else [])"

definition handlerCalls :: "props \<Rightarrow> props \<Rightarrow> string \<Rightarrow> string \<Rightarrow> map_call list" where
  "handlerCalls p nextProps layerId type =
     concat (map (\<lambda>(event, handlerName).
        let prop = toCamelCase type @ handlerName in
        if prop_handler nextProps prop \<noteq> prop_handler p prop
        then (case prop_handler p prop of None \<Rightarrow> [] | Some h \<Rightarrow> [OffLayer event layerId h])
           @ (case prop_handler nextProps prop of None \<Rightarrow> [] | Some h \<Rightarrow> [OnLayer event layerId h])
        else []) eventToHandler)"

definition moveCalls :: "props \<Rightarrow> props \<Rightarrow> string \<Rightarrow> map_call list" where
  "moveCalls p nextProps layerId =
     (if before_prop p \<noteq> before_prop nextProps
      then [MoveLayer layerId (before_prop nextProps)] else [])"

definition typeCalls ::
  "(jsval option \<Rightarrow> jsval option \<Rightarrow> bool) \<Rightarrow> props \<Rightarrow> props \<Rightarrow> bool \<Rightarrow> string \<Rightarrow> string \<Rightarrow> map_call list" where
  "typeCalls isEqual p nextProps layerFilterChanged i type =
     filterCalls nextProps layerFilterChanged (i @ ''-'' @ type)
     @ paintCalls isEqual p nextProps (i @ ''-'' @ type) (toCamelCase type @ ''Paint'')
     @ layoutCalls isEqual p nextProps (i @ ''-'' @ type) (toCamelCase type @ ''Layout'')
     @ handlerCalls p nextProps (i @ ''-'' @ type) type
     @ moveCalls p nextProps (i @ ''-'' @ type)"

definition filterChanged ::
  "(jsval option \<Rightarrow> jsval option \<Rightarrow> bool) \<Rightarrow> props \<Rightarrow> props \<Rightarrow> bool" where
  "filterChanged isEqual p nextProps =
     (case layerOptions nextProps of
        None \<Rightarrow> False
      | Some next_options \<Rightarrow>
          (case layerOptions p of
             None \<Rightarrow> False
           | Some options \<Rightarrow> \<not> isEqual (get next_options ''filter'') (get options ''filter'')))"

definition updateCalls ::
  "(jsval option \<Rightarrow> jsval option \<Rightarrow> bool) \<Rightarrow> props \<Rightarrow> props \<Rightarrow> string \<Rightarrow> map_call list" where
  "updateCalls isEqual p nextProps i =
     concat (map (typeCalls isEqual p nextProps (filterChanged isEqual p nextProps) i) types)"

subsection \<open>The calls of \<open>initialize\<close> and \<open>unbind\<close>\<close>

text \<open>
  The descriptor that \<open>createLayer\<close> hands to \<open>addLayer\<close>, the calls of \<open>createLayer\<close> and
  of \<open>initialize\<close>, and the calls of \<open>unbind\<close>: the source if it is registered, the handlers
  of the current properties, and the layers of \<open>layerIds\<close> that are registered when their
  turn comes.
\<close>

definition layerDescriptor :: "props \<Rightarrow> string \<Rightarrow> string \<Rightarrow> jsobj" where
  "layerDescriptor p i type =
     (let paint = (case prop_object p (toCamelCase type @ ''Paint'') of None \<Rightarrow> [] | Some x \<Rightarrow> x);
          visibility = (if length (keys paint) \<noteq> 0 then ''visible'' else ''none'');
          layout = (case prop_object p (toCamelCase type @ ''Layout'') of
                      None \<Rightarrow> [(''visibility'', JStr visibility)] | Some l \<Rightarrow> l)
      in spread_opt
           [(''id'', JStr (i @ ''-'' @ type)),
            (''source'', JStr i),
            (''type'', JStr type),
            (''paint'', JObj paint),
            (''layout'', JObj layout)]
           (layerOptions p))"

definition mouseHandlerCalls :: "props \<Rightarrow> string \<Rightarrow> string \<Rightarrow> map_call list" where
  "mouseHandlerCalls p i type =
     concat (map (\<lambda>(event, handlerName).
        case prop_handler p (toCamelCase type @ handlerName) of
          None \<Rightarrow> []
        | Some h \<Rightarrow> [OnLayer event (i @ ''-'' @ type) h]) eventToHandler)"

definition createLayerCalls :: "props \<Rightarrow> string \<Rightarrow> string \<Rightarrow> map_call list" where
  "createLayerCalls p i type =
     AddLayer (layerDescriptor p i type) (before_prop p) # mouseHandlerCalls p i type"

definition initializeCalls :: "props \<Rightarrow> string \<Rightarrow> jsobj \<Rightarrow> map_call list" where
  "initializeCalls p i src = AddSource i src # concat (map (createLayerCalls p i) types)"

definition handlerOffCalls :: "props \<Rightarrow> string \<Rightarrow> map_call list" where
  "handlerOffCalls p i =
     concat (map (\<lambda>type.
       concat (map (\<lambda>(event, handlerName).
         case prop_handler p (toCamelCase type @ handlerName) of
           None \<Rightarrow> []
         | Some h \<Rightarrow> [OffLayer event (i @ ''-'' @ type) h]) eventToHandler)) types)"

fun removeExisting :: "string list \<Rightarrow> string list \<Rightarrow> string list" where
  "removeExisting [] registered = []"
| "removeExisting (lId # lIds) registered =
     (if lId \<in> set registered
      then lId # removeExisting lIds (removeAll lId registered)
      else removeExisting lIds registered)"

definition unbindCalls :: "props \<Rightarrow> string \<Rightarrow> string list \<Rightarrow> mapbox \<Rightarrow> map_call list" where
  "unbindCalls p i lIds m =
     (if i \<in> set (sources m) then [RemoveSource i] else [])
     @ handlerOffCalls p i
     @ map RemoveLayer (removeExisting lIds (layers m))"

subsection \<open>A replaced style\<close>

text \<open>
  The map replaces its style: the sources and layers that were registered are gone. Then
  it notifies the component.
\<close>

definition style_reset :: "mapbox \<Rightarrow> mapbox" where
  "style_reset m = m\<lparr>sources := [], layers := []\<rparr>"

definition style_replaced :: "component \<Rightarrow> error + component" where
  "style_replaced c = onStyleDataChange (c\<lparr>context_map := map_option style_reset (context_map c)\<rparr>)"

section \<open>Examples\<close>

text \<open>
  The properties of a layer with a line paint and a click handler on the extrusion layer,
  and a map with a style and nothing registered. A primitive value is given the identity
  0, which is never read.
\<close>

definition example_props :: props where
  "example_props =
     \<lparr>id_prop = Some ''g'',
      data = DataObject 1 [(''type'', JStr ''FeatureCollection''), (''features'', JArr [])],
      layerOptions = None,
      sourceOptions = None,
      before_prop = None,
      objectProps = [(''linePaint'', [(''line-color'', Held 0 (JStr ''#000'')),
                                      (''line-width'', Held 0 (JNum 2))])],
      handlerProps = [(''fillExtrusionOnClick'', 7)]\<rparr>"

definition empty_map :: mapbox where
  "empty_map = \<lparr>style = Some [], sources = [], layers = [], calls = []\<rparr>"

text \<open>
  The component of these properties as \<open>componentWillMount\<close> leaves it on the empty map,
  once the record of calls is emptied.
\<close>

definition forget_calls :: "component \<Rightarrow> component" where
  "forget_calls c = c\<lparr>context_map := map_option (\<lambda>m. m\<lparr>calls := []\<rparr>) (context_map c)\<rparr>"

definition mounted_map :: mapbox where
  "mounted_map =
     \<lparr>style = Some [],
      sources = [''g''],
      layers = [''g-symbol'', ''g-line'', ''g-fill'', ''g-fill-extrusion'', ''g-circle''],
      calls = []\<rparr>"

definition mounted_component :: component where
  "mounted_component =
     (GeoJSONLayer example_props ''u'' (Some mounted_map))
       \<lparr>layerIds := [''g-symbol'', ''g-line'', ''g-fill'', ''g-fill-extrusion'', ''g-circle'']\<rparr>"

text \<open>The example properties with another data object of the same content.\<close>

definition new_data_props :: props where
  "new_data_props =
     example_props
       \<lparr>data := DataObject 2 [(''type'', JStr ''FeatureCollection''), (''features'', JArr [])]\<rparr>"

text \<open>The example properties with a filter, with another filter, with another paint.\<close>

definition filter_props :: props where
  "filter_props =
     example_props\<lparr>layerOptions := Some [(''filter'', JArr [JStr ''=='', JStr ''kind'', JStr ''road''])]\<rparr>"

definition refilter_props :: props where
  "refilter_props =
     example_props\<lparr>layerOptions := Some [(''filter'', JArr [JStr ''=='', JStr ''kind'', JStr ''rail''])]\<rparr>"

definition repaint_props :: props where
  "repaint_props =
     example_props\<lparr>objectProps :=
       [(''linePaint'', [(''line-color'', Held 0 (JStr ''#fff'')),
                        (''line-width'', Held 0 (JNum 2)),
                        (''line-opacity'', Held 0 (JNum 1))])]\<rparr>"

text \<open>
  The example properties with an explicit layout for the line layer and a \<open>layout\<close> entry
  in the generic layer options; and with the explicit layout only.
\<close>

definition override_props :: props where
  "override_props =
     example_props
       \<lparr>objectProps := [(''lineLayout'', [(''line-cap'', Held 0 (JStr ''round''))])],
        layerOptions := Some [(''layout'', JObj [(''visibility'', JStr ''none'')])]\<rparr>"

definition layout_props :: props where
  "layout_props =
     example_props
       \<lparr>objectProps := [(''linePaint'', [(''line-color'', Held 0 (JStr ''#000''))]),
                        (''lineLayout'', [(''line-cap'', Held 0 (JStr ''round''))])]\<rparr>"

text \<open>
  The example properties with a dash array next to the colour; with the dash array built
  again from the same numbers; and with the rebuilt dash array and another colour.
\<close>

definition dash_props :: props where
  "dash_props =
     example_props\<lparr>objectProps :=
       [(''linePaint'', [(''line-dasharray'', Held 1 (JArr [JNum 2, JNum 1])),
                        (''line-color'', Held 0 (JStr ''#000''))])]\<rparr>"

definition rebuilt_props :: props where
  "rebuilt_props =
     example_props\<lparr>objectProps :=
       [(''linePaint'', [(''line-dasharray'', Held 2 (JArr [JNum 2, JNum 1])),
                        (''line-color'', Held 0 (JStr ''#000''))])]\<rparr>"

definition recoloured_props :: props where
  "recoloured_props =
     example_props\<lparr>objectProps :=
       [(''linePaint'', [(''line-dasharray'', Held 2 (JArr [JNum 2, JNum 1])),
                        (''line-color'', Held 0 (JStr ''#fff''))])]\<rparr>"


text \<open>
  The examples need an answer where the component asks \<open>isEqual\<close>. In them it is asked
  about a value and itself, about \<open>undefined\<close> and \<open>undefined\<close>, about \<open>undefined\<close> and
  an array, about two objects or arrays of equal contents, and about objects or arrays
  with another number of keys or with another string under the same key. On those,
  comparing the contents gives the answer of a deep equality check.
\<close>

definition same_content :: "jsval option \<Rightarrow> jsval option \<Rightarrow> bool" where
  "same_content a b = (a = b)"

section \<open>Lemmas\<close>

subsection \<open>The layer types\<close>

lemma toCamelCase_symbol: "toCamelCase ''symbol'' = ''symbol''"
  by code_simp

lemma toCamelCase_line: "toCamelCase ''line'' = ''line''"
  by code_simp

lemma toCamelCase_fill: "toCamelCase ''fill'' = ''fill''"
  by code_simp

lemma toCamelCase_fill_extrusion: "toCamelCase ''fill-extrusion'' = ''fillExtrusion''"
  by code_simp

lemma toCamelCase_circle: "toCamelCase ''circle'' = ''circle''"
  by code_simp

lemma distinct_types: "distinct types"
  by (simp add: types_def)

subsection \<open>Objects and lists\<close>

lemma filter_eq_distinct:
  "distinct xs \<Longrightarrow> filter (\<lambda>x. x = a) xs = (if a \<in> set xs then [a] else [])"
proof (induction xs)
  case Nil
  then show ?case by simp
next
  case (Cons x xs)
  then show ?case by (auto simp: filter_empty_conv)
qed

lemma filter_commute:
  "filter P (filter Q xs) = filter Q (filter P xs)"
  by (induction xs) auto

lemma diff_keys_distinct:
  "distinct ks \<Longrightarrow> distinct ks' \<Longrightarrow> distinct (ks @ filter (\<lambda>k. k \<notin> set ks) ks')"
  by auto

lemma filter_key_diff:
  assumes "distinct (map fst P1)" and "distinct (map fst P2)"
  shows "filter (\<lambda>(k, v). k = key) (diff (Some P1) (Some P2))
         = (if identical (map_of P1 key) (map_of P2 key) then []
            else [(key, map_option content (map_of P2 key))])"
proof -
  let ?all = "map fst P1 @ filter (\<lambda>k. k \<notin> set (map fst P1)) (map fst P2)"
  let ?changed = "\<lambda>k. \<not> identical (map_of P1 k) (map_of P2 k)"
  let ?entry = "\<lambda>k. (k, map_option content (map_of P2 k))"
  have d: "distinct ?all"
    using assms by (rule diff_keys_distinct)
  have "filter (\<lambda>(k, v). k = key) (diff (Some P1) (Some P2))
        = map ?entry (filter (\<lambda>k. k = key) (filter ?changed ?all))"
    by (simp add: diff_def Let_def filter_map comp_def)
  also have "filter (\<lambda>k. k = key) (filter ?changed ?all)
             = filter ?changed (filter (\<lambda>k. k = key) ?all)"
    by (rule filter_commute)
  also have "filter (\<lambda>k. k = key) ?all = (if key \<in> set ?all then [key] else [])"
    using d by (rule filter_eq_distinct)
  finally have eq: "filter (\<lambda>(k, v). k = key) (diff (Some P1) (Some P2))
        = map ?entry (filter ?changed (if key \<in> set ?all then [key] else []))" .
  show ?thesis
  proof (cases "key \<in> set ?all")
    case True
    then show ?thesis using eq by simp
  next
    case False
    then have "map_of P1 key = None" "map_of P2 key = None"
      by (auto simp: map_of_eq_None_iff)
    then show ?thesis using eq False by simp
  qed
qed

lemma get_set_key_other: "k \<noteq> k' \<Longrightarrow> get (set_key k' v obj) k = get obj k"
  by (induction obj) (auto simp: get_def)

lemma get_spread_other: "k \<notin> set (keys extra) \<Longrightarrow> get (spread base extra) k = get base k"
proof (induction extra arbitrary: base)
  case Nil
  then show ?case by (simp add: spread_def)
next
  case (Cons e extra)
  obtain k' v where e: "e = (k', v)" by (cases e)
  have "get (spread (set_key k' v base) extra) k = get (set_key k' v base) k"
    using Cons.prems by (intro Cons.IH) (simp add: keys_def)
  moreover have "k \<noteq> k'"
    using Cons.prems e by (auto simp: keys_def)
  ultimately show ?case
    using e by (simp add: spread_def get_set_key_other)
qed

lemma concat_map_none:
  "(\<And>y. y \<in> set xs \<Longrightarrow> g y = []) \<Longrightarrow> concat (map g xs) = []"
  by (induction xs) simp_all

lemma concat_map_only:
  assumes "x \<in> set xs" and "distinct xs" and "\<And>y. y \<in> set xs \<Longrightarrow> y \<noteq> x \<Longrightarrow> g y = []"
  shows "concat (map g xs) = g x"
  using assms
proof (induction xs)
  case Nil
  then show ?case by simp
next
  case (Cons a xs)
  show ?case
  proof (cases "a = x")
    case True
    then have "x \<notin> set xs" using Cons.prems(2) by simp
    then have "concat (map g xs) = []"
      using Cons.prems(3) by (intro concat_map_none) auto
    then show ?thesis using True by simp
  next
    case False
    then have "g a = []" using Cons.prems(3) by simp
    moreover have "concat (map g xs) = g x"
      using False Cons.prems by (intro Cons.IH) auto
    ultimately show ?thesis by simp
  qed
qed

subsection \<open>Calls on the map\<close>

lemma calls_fold_perform: "calls (fold perform cs m) = calls m @ cs"
  by (induction cs arbitrary: m) (simp_all add: perform_def)

lemma performed_Nil: "performed [] c = c"
  by (simp add: performed_def option.map_id)

lemma performed_performed: "performed ys (performed xs c) = performed (xs @ ys) c"
  by (simp add: performed_def option.map_comp comp_def)

lemma performed_fields:
  "props (performed cs c) = props c"
  "this_id (performed cs c) = this_id c"
  "source (performed cs c) = source c"
  "layerIds (performed cs c) = layerIds c"
  "forceUpdates (performed cs c) = forceUpdates c"
  "context_map (performed cs c) = map_option (fold perform cs) (context_map c)"
  by (simp_all add: performed_def)

lemma call_map_perform:
  "context_map c \<noteq> None \<Longrightarrow> call_map (perform x) c = Inr (performed [x] c)"
  by (auto simp: call_map_def performed_def)

lemma and_then_Inr [simp]: "and_then (Inr x) f = f x"
  by (simp add: and_then_def)

lemma and_then_Inl [simp]: "and_then (Inl e) f = Inl e"
  by (simp add: and_then_def)

lemma forEach_performed:
  assumes step: "\<And>x c. x \<in> set xs \<Longrightarrow> I c \<Longrightarrow> f x c = Inr (performed (g x) c)"
    and keep: "\<And>cs c. I c \<Longrightarrow> I (performed cs c)"
    and start: "I c"
  shows "forEach xs f c = Inr (performed (concat (map g xs)) c)"
  using step start
proof (induction xs arbitrary: c)
  case Nil
  then show ?case by (simp add: performed_Nil)
next
  case (Cons x xs)
  have "f x c = Inr (performed (g x) c)"
    using Cons.prems by simp
  moreover have "forEach xs f (performed (g x) c) = Inr (performed (concat (map g xs)) (performed (g x) c))"
    using Cons.prems keep by (intro Cons.IH) simp_all
  ultimately show ?case
    by (simp add: performed_performed)
qed

lemma forEach_call_map:
  "context_map c \<noteq> None \<Longrightarrow>
   forEach xs (\<lambda>x. call_map (perform (h x))) c = Inr (performed (map h xs) c)"
proof -
  assume m: "context_map c \<noteq> None"
  have "forEach xs (\<lambda>x. call_map (perform (h x))) c
        = Inr (performed (concat (map (\<lambda>x. [h x]) xs)) c)"
    by (rule forEach_performed [where I = "\<lambda>c. context_map c \<noteq> None"])
       (simp_all add: call_map_perform performed_fields m)
  then show ?thesis by (simp add: concat_map_singleton)
qed

lemma ready_performed: "ready p i c \<Longrightarrow> ready p i (performed cs c)"
  by (simp add: ready_def performed_fields)

lemma performed_source_update:
  "(performed cs c)\<lparr>source := s\<rparr> = performed cs (c\<lparr>source := s\<rparr>)"
  by (simp add: performed_def)

lemma register_not_structural:
  "\<not> structural x \<Longrightarrow> register x m = m"
  by (cases x) simp_all

lemma fold_perform_not_structural:
  "\<forall>x \<in> set cs. \<not> structural x \<Longrightarrow>
   sources (fold perform cs m) = sources m \<and> layers (fold perform cs m) = layers m"
  by (induction cs arbitrary: m) (simp_all add: perform_def register_not_structural)

lemma and_then_Inr_iff: "and_then r f = Inr y \<longleftrightarrow> (\<exists>x. r = Inr x \<and> f x = Inr y)"
  by (cases r) simp_all

lemma performed_layerIds_update:
  "(performed cs c)\<lparr>layerIds := l\<rparr> = performed cs (c\<lparr>layerIds := l\<rparr>)"
  by (simp add: performed_def)

lemma layers_fold_perform:
  "\<forall>x \<in> set cs. \<not> structural x \<Longrightarrow> layers (fold perform cs m) = layers m"
  by (simp add: fold_perform_not_structural)

lemma calls_of_performed:
  "context_map c = Some m \<Longrightarrow> calls_of (Inr (performed cs c)) = Some (calls m @ cs)"
  by (simp add: calls_of_def performed_fields calls_fold_perform)

lemma sources_fold_perform:
  assumes "\<And>x m. x \<in> set cs \<Longrightarrow> sources (register x m) = sources m"
  shows "sources (fold perform cs m) = sources m"
  using assms by (induction cs arbitrary: m) (simp_all add: perform_def)

subsection \<open>What the methods keep\<close>

lemma kept_refl: "kept c c"
  by (simp add: kept_def)

lemma kept_trans: "kept a b \<Longrightarrow> kept b c \<Longrightarrow> kept a c"
  by (simp add: kept_def)

lemma call_map_kept: "call_map f c = Inr c' \<Longrightarrow> kept c c'"
  by (auto simp: call_map_def kept_def split: option.splits)

lemma forEach_kept:
  assumes run: "forEach xs f c = Inr c'"
    and step: "\<And>x c c'. x \<in> set xs \<Longrightarrow> f x c = Inr c' \<Longrightarrow> kept c c'"
  shows "kept c c'"
  using run step
proof (induction xs arbitrary: c)
  case Nil
  then show ?case by (simp add: kept_refl)
next
  case (Cons x xs)
  from Cons.prems(1) obtain c1 where 1: "f x c = Inr c1" and 2: "forEach xs f c1 = Inr c'"
    by (auto simp: and_then_Inr_iff)
  have "kept c c1"
    by (rule Cons.prems(2) [OF _ 1]) simp
  moreover have "kept c1 c'"
  proof (rule Cons.IH [OF 2])
    fix y d d' assume "y \<in> set xs" "f y d = Inr d'"
    then show "kept d d'" using Cons.prems(2) [of y d d'] by simp
  qed
  ultimately show ?case by (rule kept_trans)
qed

lemma forEach_call_map_kept:
  assumes "forEach xs (\<lambda>(k, v). call_map (g k v)) c = Inr c'"
  shows "kept c c'"
  using assms by (rule forEach_kept) (auto dest: call_map_kept)

lemma receivePropsOfType_kept:
  assumes "receivePropsOfType isEqual nextProps ch type c = Inr c'"
  shows "kept c c'"
proof -
  from assms obtain c1 c2 c3 c4 where
    s1: "(case layerOptions nextProps of
           None \<Rightarrow> Inr c
         | Some options \<Rightarrow>
             if ch
             then call_map (setFilter (buildLayerId c type) (or_else (get options ''filter'') (JArr []))) c
             else Inr c) = Inr c1"
    and s2: "(if \<not> isEqual (map_option JObj (prop_object nextProps (toCamelCase type @ ''Paint'')))
                      (map_option JObj (prop_object (props c1) (toCamelCase type @ ''Paint'')))
         then forEach (diff (prop_held (props c1) (toCamelCase type @ ''Paint'')) (prop_held nextProps (toCamelCase type @ ''Paint'')))
                (\<lambda>(key, v). call_map (setPaintProperty (buildLayerId c type) key v)) c1
         else Inr c1) = Inr c2"
    and s3: "(if \<not> isEqual (map_option JObj (prop_object nextProps (toCamelCase type @ ''Layout'')))
                      (map_option JObj (prop_object (props c2) (toCamelCase type @ ''Layout'')))
         then forEach (diff (prop_held (props c2) (toCamelCase type @ ''Layout'')) (prop_held nextProps (toCamelCase type @ ''Layout'')))
                (\<lambda>(key, v). call_map (setLayoutProperty (buildLayerId c type) key v)) c2
         else Inr c2) = Inr c3"
    and s4: "forEach eventToHandler
           (\<lambda>(event, handlerName) c'.
              let prop = toCamelCase type @ handlerName in
              if prop_handler nextProps prop \<noteq> prop_handler (props c') prop
              then and_then
                     (case prop_handler (props c') prop of
                        None \<Rightarrow> Inr c'
                      | Some h \<Rightarrow> call_map (off_layer event (buildLayerId c type) h) c') (\<lambda>c'.
                     case prop_handler nextProps prop of
                       None \<Rightarrow> Inr c'
                     | Some h \<Rightarrow> call_map (on_layer event (buildLayerId c type) h) c')
              else Inr c') c3 = Inr c4"
    and s5: "(if before_prop (props c4) \<noteq> before_prop nextProps
      then call_map (moveLayer (buildLayerId c type) (before_prop nextProps)) c4
      else Inr c4) = Inr c'"
    unfolding receivePropsOfType_def by (auto simp: and_then_Inr_iff Let_def)
  have k1: "kept c c1"
    using s1 by (auto simp: kept_refl split: option.splits if_splits dest: call_map_kept)
  have k2: "kept c1 c2"
    using s2
    by (auto simp: kept_refl split: if_splits dest: forEach_call_map_kept)
  have k3: "kept c2 c3"
    using s3
    by (auto simp: kept_refl split: if_splits dest: forEach_call_map_kept)
  have k4: "kept c3 c4"
    using s4
  proof (rule forEach_kept)
    fix x d d'
    assume "(case x of (event, handlerName) \<Rightarrow> \<lambda>c'.
              let prop = toCamelCase type @ handlerName in
              if prop_handler nextProps prop \<noteq> prop_handler (props c') prop
              then and_then
                     (case prop_handler (props c') prop of
                        None \<Rightarrow> Inr c'
                      | Some h \<Rightarrow> call_map (off_layer event (buildLayerId c type) h) c') (\<lambda>c'.
                     case prop_handler nextProps prop of
                       None \<Rightarrow> Inr c'
                     | Some h \<Rightarrow> call_map (on_layer event (buildLayerId c type) h) c')
              else Inr c') d = Inr d'"
    then show "kept d d'"
      by (cases x)
         (auto simp: kept_refl Let_def and_then_Inr_iff split: if_splits option.splits
            dest!: call_map_kept intro: kept_trans)
  qed
  have k5: "kept c4 c'"
    using s5 by (auto simp: kept_refl split: if_splits dest: call_map_kept)
  show ?thesis
    using k1 k2 k3 k4 k5 by (blast intro: kept_trans)
qed

lemma componentWillReceiveProps_kept:
  assumes "componentWillReceiveProps isEqual nextProps c = Inr c'"
  shows "kept c c'"
proof -
  from assms obtain c1 where
    s1: "(if \<not> strict_equal (data nextProps) (data (props c))
        then ask_map (getSource (this_id c)) c
               (\<lambda>src. case src of
                         None \<Rightarrow> Inl TypeError
                       | Some s \<Rightarrow>
                           and_then (call_map (setData s (data nextProps)) c) (\<lambda>c.
                           Inr (c\<lparr>source := make_source (sourceOptions nextProps) (data nextProps)\<rparr>)))
        else Inr c) = Inr c1"
    and s2: "\<exists>ch. forEach types (receivePropsOfType isEqual nextProps ch) c1 = Inr c'"
    unfolding componentWillReceiveProps_def by (auto simp: and_then_Inr_iff Let_def)
  have "kept c c1"
    using s1
    by (auto simp: kept_refl ask_map_def and_then_Inr_iff kept_def call_map_def
        split: if_splits option.splits)
  moreover have "kept c1 c'"
  proof -
    from s2 obtain ch where "forEach types (receivePropsOfType isEqual nextProps ch) c1 = Inr c'" ..
    then show ?thesis
      by (rule forEach_kept) (rule receivePropsOfType_kept)
  qed
  ultimately show ?thesis by (rule kept_trans)
qed

subsection \<open>\<open>componentWillReceiveProps\<close> by its calls\<close>

lemma handler_step:
  assumes "ready p i c"
  shows "forEach eventToHandler
           (\<lambda>(event, handlerName) c.
              let prop = toCamelCase type @ handlerName in
              if prop_handler nextProps prop \<noteq> prop_handler (props c) prop
              then and_then
                     (case prop_handler (props c) prop of
                        None \<Rightarrow> Inr c
                      | Some h \<Rightarrow> call_map (off_layer event layerId h) c) (\<lambda>c.
                     case prop_handler nextProps prop of
                       None \<Rightarrow> Inr c
                     | Some h \<Rightarrow> call_map (on_layer event layerId h) c)
              else Inr c) c
         = Inr (performed (handlerCalls p nextProps layerId type) c)"
  unfolding handlerCalls_def
proof (rule forEach_performed [where I = "ready p i"])
  show "ready p i c" by (rule assms)
next
  fix cs c assume "ready p i c"
  then show "ready p i (performed cs c)" by (rule ready_performed)
next
  fix x c assume "ready p i c"
  then show "(case x of (event, handlerName) \<Rightarrow> \<lambda>c.
              let prop = toCamelCase type @ handlerName in
              if prop_handler nextProps prop \<noteq> prop_handler (props c) prop
              then and_then
                     (case prop_handler (props c) prop of
                        None \<Rightarrow> Inr c
                      | Some h \<Rightarrow> call_map (off_layer event layerId h) c) (\<lambda>c.
                     case prop_handler nextProps prop of
                       None \<Rightarrow> Inr c
                     | Some h \<Rightarrow> call_map (on_layer event layerId h) c)
              else Inr c) c
         = Inr (performed (case x of (event, handlerName) \<Rightarrow>
        let prop = toCamelCase type @ handlerName in
        if prop_handler nextProps prop \<noteq> prop_handler p prop
        then (case prop_handler p prop of None \<Rightarrow> [] | Some h \<Rightarrow> [OffLayer event layerId h])
           @ (case prop_handler nextProps prop of None \<Rightarrow> [] | Some h \<Rightarrow> [OnLayer event layerId h])
        else []) c)"
    by (cases x)
       (auto simp: ready_def Let_def call_map_perform off_layer_def on_layer_def performed_Nil
          performed_fields performed_performed split: option.splits)
qed

lemma paint_step:
  assumes "context_map c \<noteq> None"
  shows "forEach d (\<lambda>(key, v). call_map (setPaintProperty layerId key v)) c
         = Inr (performed (map (\<lambda>(key, v). SetPaintProperty layerId key v) d) c)"
proof -
  have "(\<lambda>(key, v). call_map (setPaintProperty layerId key v))
        = (\<lambda>x. call_map (perform ((\<lambda>(key, v). SetPaintProperty layerId key v) x)))"
    by (auto simp: setPaintProperty_def)
  then show ?thesis
    using forEach_call_map [OF assms, of d "\<lambda>(key, v). SetPaintProperty layerId key v"] by simp
qed

lemma layout_step:
  assumes "context_map c \<noteq> None"
  shows "forEach d (\<lambda>(key, v). call_map (setLayoutProperty layerId key v)) c
         = Inr (performed (map (\<lambda>(key, v). SetLayoutProperty layerId key v) d) c)"
proof -
  have "(\<lambda>(key, v). call_map (setLayoutProperty layerId key v))
        = (\<lambda>x. call_map (perform ((\<lambda>(key, v). SetLayoutProperty layerId key v) x)))"
    by (auto simp: setLayoutProperty_def)
  then show ?thesis
    using forEach_call_map [OF assms, of d "\<lambda>(key, v). SetLayoutProperty layerId key v"] by simp
qed

lemma receivePropsOfType_run:
  assumes "ready p i c"
  shows "receivePropsOfType isEqual nextProps ch type c = Inr (performed (typeCalls isEqual p nextProps ch i type) c)"
proof -
  have r: "props c = p" "this_id c = i" "context_map c \<noteq> None"
    using assms by (simp_all add: ready_def)
  let ?lid = "i @ ''-'' @ type"
  define c1 where "c1 = performed (filterCalls nextProps ch ?lid) c"
  define c2 where "c2 = performed (paintCalls isEqual p nextProps ?lid (toCamelCase type @ ''Paint'')) c1"
  define c3 where "c3 = performed (layoutCalls isEqual p nextProps ?lid (toCamelCase type @ ''Layout'')) c2"
  define c4 where "c4 = performed (handlerCalls p nextProps ?lid type) c3"
  have r1: "ready p i c1" unfolding c1_def by (rule ready_performed [OF assms])
  have r2: "ready p i c2" unfolding c2_def by (rule ready_performed [OF r1])
  have r3: "ready p i c3" unfolding c3_def by (rule ready_performed [OF r2])
  have r4: "ready p i c4" unfolding c4_def by (rule ready_performed [OF r3])
  have s1: "(case layerOptions nextProps of
           None \<Rightarrow> Inr c
         | Some options \<Rightarrow>
             if ch
             then call_map (setFilter ?lid (or_else (get options ''filter'') (JArr []))) c
             else Inr c) = Inr c1"
    by (simp add: c1_def filterCalls_def setFilter_def call_map_perform r performed_Nil
        split: option.splits)
  have s2: "(if \<not> isEqual (map_option JObj (prop_object nextProps (toCamelCase type @ ''Paint'')))
                      (map_option JObj (prop_object (props c1) (toCamelCase type @ ''Paint'')))
         then forEach (diff (prop_held (props c1) (toCamelCase type @ ''Paint'')) (prop_held nextProps (toCamelCase type @ ''Paint'')))
                (\<lambda>(key, v). call_map (setPaintProperty ?lid key v)) c1
         else Inr c1) = Inr c2"
    using r1 by (simp add: c2_def paintCalls_def ready_def paint_step performed_Nil)
  have s3: "(if \<not> isEqual (map_option JObj (prop_object nextProps (toCamelCase type @ ''Layout'')))
                      (map_option JObj (prop_object (props c2) (toCamelCase type @ ''Layout'')))
         then forEach (diff (prop_held (props c2) (toCamelCase type @ ''Layout'')) (prop_held nextProps (toCamelCase type @ ''Layout'')))
                (\<lambda>(key, v). call_map (setLayoutProperty ?lid key v)) c2
         else Inr c2) = Inr c3"
    using r2 by (simp add: c3_def layoutCalls_def ready_def layout_step performed_Nil)
  have s4: "forEach eventToHandler
           (\<lambda>(event, handlerName) c.
              let prop = toCamelCase type @ handlerName in
              if prop_handler nextProps prop \<noteq> prop_handler (props c) prop
              then and_then
                     (case prop_handler (props c) prop of
                        None \<Rightarrow> Inr c
                      | Some h \<Rightarrow> call_map (off_layer event ?lid h) c) (\<lambda>c.
                     case prop_handler nextProps prop of
                       None \<Rightarrow> Inr c
                     | Some h \<Rightarrow> call_map (on_layer event ?lid h) c)
              else Inr c) c3 = Inr c4"
    unfolding c4_def by (rule handler_step [OF r3])
  have s5: "(if before_prop (props c4) \<noteq> before_prop nextProps
      then call_map (moveLayer ?lid (before_prop nextProps)) c4
      else Inr c4) = Inr (performed (moveCalls p nextProps ?lid) c4)"
    using r4 by (simp add: moveCalls_def ready_def moveLayer_def call_map_perform performed_Nil)
  have "receivePropsOfType isEqual nextProps ch type c = Inr (performed (moveCalls p nextProps ?lid) c4)"
    unfolding receivePropsOfType_def Let_def buildLayerId_def
    by (simp only: r s1 and_then_Inr s2 s3 s4 [unfolded Let_def] s5)
  then show ?thesis
    by (simp add: c4_def c3_def c2_def c1_def typeCalls_def performed_performed)
qed

lemma forEach_types_run:
  assumes "ready p i c"
  shows "forEach types (receivePropsOfType isEqual nextProps ch) c
         = Inr (performed (concat (map (typeCalls isEqual p nextProps ch i) types)) c)"
  by (rule forEach_performed [where I = "ready p i"])
     (simp_all add: receivePropsOfType_run ready_performed assms)

lemma componentWillReceiveProps_run:
  assumes "context_map c = Some m"
  shows "componentWillReceiveProps isEqual nextProps c =
     (if strict_equal (data nextProps) (data (props c))
      then Inr (performed (updateCalls isEqual (props c) nextProps (this_id c)) c)
      else if this_id c \<in> set (sources m)
      then Inr (performed (SetData (this_id c) (data nextProps)
                           # updateCalls isEqual (props c) nextProps (this_id c))
                  (c\<lparr>source := make_source (sourceOptions nextProps) (data nextProps)\<rparr>))
      else Inl TypeError)"
proof -
  have r: "ready (props c) (this_id c) c"
    using assms by (simp add: ready_def)
  let ?c1 = "(performed [SetData (this_id c) (data nextProps)] c)
               \<lparr>source := make_source (sourceOptions nextProps) (data nextProps)\<rparr>"
  have r1: "ready (props c) (this_id c) ?c1"
    using assms by (simp add: ready_def performed_fields)
  show ?thesis
    unfolding componentWillReceiveProps_def Let_def
    using forEach_types_run [OF r, of isEqual nextProps] forEach_types_run [OF r1, of isEqual nextProps]
    by (simp add: assms ask_map_def getSource_def setData_def call_map_perform
        filterChanged_def updateCalls_def performed_fields performed_source_update
        performed_performed cong: option.case_cong)
qed

lemma typeCalls_not_structural: "x \<in> set (typeCalls isEqual p nextProps ch i type) \<Longrightarrow> \<not> structural x"
  by (auto simp: typeCalls_def filterCalls_def paintCalls_def layoutCalls_def handlerCalls_def
      moveCalls_def Let_def split: option.splits if_splits)

lemma updateCalls_not_structural: "x \<in> set (updateCalls isEqual p nextProps i) \<Longrightarrow> \<not> structural x"
  by (auto simp: updateCalls_def dest: typeCalls_not_structural)

lemma filter_sets_filter_typeCalls:
  "filter sets_filter (typeCalls isEqual p nextProps ch i type) = filterCalls nextProps ch (i @ ''-'' @ type)"
proof -
  have 1: "filter sets_filter (filterCalls nextProps ch l) = filterCalls nextProps ch l" for l
    by (simp add: filterCalls_def split: option.splits)
  have 2: "filter sets_filter (paintCalls isEqual p nextProps l k) = []" for l k
    by (auto simp: paintCalls_def filter_empty_conv)
  have 3: "filter sets_filter (layoutCalls isEqual p nextProps l k) = []" for l k
    by (auto simp: layoutCalls_def filter_empty_conv)
  have 4: "filter sets_filter (handlerCalls p nextProps l type) = []" for l
    by (auto simp: handlerCalls_def filter_empty_conv Let_def split: if_splits option.splits)
  have 5: "filter sets_filter (moveCalls p nextProps l) = []" for l
    by (simp add: moveCalls_def)
  show ?thesis
    by (simp add: typeCalls_def 1 2 3 4 5)
qed

lemma filter_sets_filter_updateCalls:
  assumes "layerOptions p = Some options"
    and "layerOptions nextProps = Some next_options"
    and "\<not> isEqual (get next_options ''filter'') (get options ''filter'')"
  shows "filter sets_filter (updateCalls isEqual p nextProps i)
         = map (\<lambda>type. SetFilter (i @ ''-'' @ type) (or_else (get next_options ''filter'') (JArr []))) types"
proof -
  have "filter sets_filter (updateCalls isEqual p nextProps i)
        = concat (map (\<lambda>type. filterCalls nextProps (filterChanged isEqual p nextProps) (i @ ''-'' @ type)) types)"
    by (simp add: updateCalls_def filter_concat comp_def filter_sets_filter_typeCalls)
  also have "\<dots> = concat (map (\<lambda>type. [SetFilter (i @ ''-'' @ type) (or_else (get next_options ''filter'') (JArr []))]) types)"
    using assms by (simp add: filterCalls_def filterChanged_def)
  finally show ?thesis by simp
qed

lemma componentWillReceiveProps_calls:
  assumes "context_map c = Some m"
    and "strict_equal (data nextProps) (data (props c)) \<or> getSource (this_id c) m \<noteq> None"
  shows "\<exists>c' m'.
           componentWillReceiveProps isEqual nextProps c = Inr c'
           \<and> context_map c' = Some m'
           \<and> calls m' = calls m
               @ (if strict_equal (data nextProps) (data (props c)) then []
                  else [SetData (this_id c) (data nextProps)])
               @ updateCalls isEqual (props c) nextProps (this_id c)"
proof (cases "strict_equal (data nextProps) (data (props c))")
  case True
  let ?u = "updateCalls isEqual (props c) nextProps (this_id c)"
  have "componentWillReceiveProps isEqual nextProps c = Inr (performed ?u c)"
    using True by (simp add: componentWillReceiveProps_run [OF assms(1)])
  moreover have "context_map (performed ?u c) = Some (fold perform ?u m)"
    using assms(1) by (simp add: performed_fields)
  moreover have "calls (fold perform ?u m) = calls m @ ?u"
    by (rule calls_fold_perform)
  ultimately show ?thesis using True by simp
next
  case False
  then have src: "this_id c \<in> set (sources m)"
    using assms(2) by (simp add: getSource_def split: if_splits)
  let ?cs = "SetData (this_id c) (data nextProps) # updateCalls isEqual (props c) nextProps (this_id c)"
  let ?c' = "performed ?cs (c\<lparr>source := make_source (sourceOptions nextProps) (data nextProps)\<rparr>)"
  have "componentWillReceiveProps isEqual nextProps c = Inr ?c'"
    using False src by (simp add: componentWillReceiveProps_run [OF assms(1)])
  moreover have "context_map ?c' = Some (fold perform ?cs m)"
    using assms(1) by (simp add: performed_fields)
  moreover have "calls (fold perform ?cs m) = calls m @ ?cs"
    by (rule calls_fold_perform)
  ultimately show ?thesis using False by simp
qed

lemma filter_sets_paint_typeCalls:
  "filter (sets_paint l key) (typeCalls isEqual p nextProps ch i type)
   = filter (sets_paint l key) (paintCalls isEqual p nextProps (i @ ''-'' @ type) (toCamelCase type @ ''Paint''))"
proof -
  have 1: "filter (sets_paint l key) (filterCalls nextProps ch l') = []" for l'
    by (simp add: filterCalls_def split: option.splits)
  have 3: "filter (sets_paint l key) (layoutCalls isEqual p nextProps l' k) = []" for l' k
    by (auto simp: layoutCalls_def filter_empty_conv)
  have 4: "filter (sets_paint l key) (handlerCalls p nextProps l' type) = []" for l'
    by (auto simp: handlerCalls_def filter_empty_conv Let_def split: if_splits option.splits)
  have 5: "filter (sets_paint l key) (moveCalls p nextProps l') = []" for l'
    by (simp add: moveCalls_def)
  show ?thesis
    by (simp add: typeCalls_def 1 3 4 5)
qed

lemma filter_sets_paint_other_layer:
  "l' \<noteq> l \<Longrightarrow> filter (sets_paint l key) (paintCalls isEqual p nextProps l' k) = []"
  by (auto simp: paintCalls_def filter_empty_conv)

lemma filter_sets_paint_map:
  "filter (sets_paint l key) (map (\<lambda>(key, v). SetPaintProperty l key v) d)
   = map (\<lambda>(key, v). SetPaintProperty l key v) (filter (\<lambda>(k, v). k = key) d)"
  by (induction d) auto

lemma filter_sets_paint_paintCalls:
  assumes "prop_held p k = Some P1"
    and "prop_held nextProps k = Some P2"
    and "distinct (map fst P1)"
    and "distinct (map fst P2)"
  shows "filter (sets_paint l key) (paintCalls isEqual p nextProps l k)
         = (if isEqual (Some (JObj (contents P2))) (Some (JObj (contents P1)))
               \<or> identical (map_of P1 key) (map_of P2 key)
            then []
            else [SetPaintProperty l key (map_option content (map_of P2 key))])"
  by (simp add: paintCalls_def prop_object_def assms(1,2) filter_sets_paint_map
      filter_key_diff [OF assms(3,4)])

lemma filter_sets_paint_updateCalls:
  assumes "type \<in> set types"
    and "prop_held p (toCamelCase type @ ''Paint'') = Some P1"
    and "prop_held nextProps (toCamelCase type @ ''Paint'') = Some P2"
    and "distinct (map fst P1)"
    and "distinct (map fst P2)"
  shows "filter (sets_paint (i @ ''-'' @ type) key) (updateCalls isEqual p nextProps i)
         = (if isEqual (Some (JObj (contents P2))) (Some (JObj (contents P1)))
               \<or> identical (map_of P1 key) (map_of P2 key)
            then []
            else [SetPaintProperty (i @ ''-'' @ type) key (map_option content (map_of P2 key))])"
proof -
  let ?l = "i @ ''-'' @ type"
  let ?g = "\<lambda>t. filter (sets_paint ?l key)
                  (paintCalls isEqual p nextProps (i @ ''-'' @ t) (toCamelCase t @ ''Paint''))"
  have "filter (sets_paint ?l key) (updateCalls isEqual p nextProps i) = concat (map ?g types)"
    by (simp add: updateCalls_def filter_concat comp_def filter_sets_paint_typeCalls)
  also have "\<dots> = ?g type"
    using assms(1) distinct_types
    by (rule concat_map_only) (simp add: filter_sets_paint_other_layer)
  also have "\<dots> = (if isEqual (Some (JObj (contents P2))) (Some (JObj (contents P1)))
               \<or> identical (map_of P1 key) (map_of P2 key)
            then []
            else [SetPaintProperty ?l key (map_option content (map_of P2 key))])"
    by (rule filter_sets_paint_paintCalls [OF assms(2,3,4,5)])
  finally show ?thesis .
qed


subsection \<open>\<open>initialize\<close>, \<open>unbind\<close> and the lifecycle methods by their calls\<close>

lemma mapLayerMouseHandlers_run:
  assumes "ready p i c"
  shows "mapLayerMouseHandlers type c = Inr (performed (mouseHandlerCalls p i type) c)"
proof -
  have i: "this_id c = i" using assms by (simp add: ready_def)
  show ?thesis
    unfolding mapLayerMouseHandlers_def mouseHandlerCalls_def Let_def buildLayerId_def i
  proof (rule forEach_performed [where I = "ready p i"])
    show "ready p i c" by (rule assms)
  next
    fix cs d assume "ready p i d"
    then show "ready p i (performed cs d)" by (rule ready_performed)
  next
    fix x d assume "ready p i d"
    then show "(case x of (event, handlerName) \<Rightarrow> \<lambda>c.
           case prop_handler (props c) (toCamelCase type @ handlerName) of
             None \<Rightarrow> Inr c
           | Some h \<Rightarrow> call_map (on_layer event (i @ ''-'' @ type) h) c) d
          = Inr (performed (case x of (event, handlerName) \<Rightarrow>
        case prop_handler p (toCamelCase type @ handlerName) of
          None \<Rightarrow> []
        | Some h \<Rightarrow> [OnLayer event (i @ ''-'' @ type) h]) d)"
      by (cases x)
         (auto simp: ready_def call_map_perform on_layer_def performed_Nil split: option.splits)
  qed
qed

lemma createLayer_run:
  assumes "ready p i c"
  shows "createLayer type c
         = Inr (performed (createLayerCalls p i type) (c\<lparr>layerIds := layerIds c @ [i @ ''-'' @ type]\<rparr>))"
proof -
  have r: "props c = p" "this_id c = i" "context_map c \<noteq> None"
    using assms by (simp_all add: ready_def)
  let ?c1 = "c\<lparr>layerIds := layerIds c @ [i @ ''-'' @ type]\<rparr>"
  have r1: "ready p i (performed [AddLayer (layerDescriptor p i type) (before_prop p)] ?c1)"
    using assms by (simp add: ready_def performed_fields)
  have "createLayer type c
        = and_then (call_map (addLayer (layerDescriptor p i type) (before_prop p)) ?c1)
            (mapLayerMouseHandlers type)"
    by (simp add: createLayer_def layerDescriptor_def Let_def buildLayerId_def r)
  also have "\<dots> = mapLayerMouseHandlers type
                     (performed [AddLayer (layerDescriptor p i type) (before_prop p)] ?c1)"
    using r by (simp add: addLayer_def call_map_perform)
  also have "\<dots> = Inr (performed (mouseHandlerCalls p i type)
                     (performed [AddLayer (layerDescriptor p i type) (before_prop p)] ?c1))"
    by (rule mapLayerMouseHandlers_run [OF r1])
  finally show ?thesis
    by (simp add: performed_performed createLayerCalls_def)
qed

lemma createLayer_step:
  assumes "ready p i c"
  shows "createLayer type (performed cs (c\<lparr>layerIds := l\<rparr>))
         = Inr (performed (cs @ createLayerCalls p i type) (c\<lparr>layerIds := l @ [i @ ''-'' @ type]\<rparr>))"
proof -
  have "ready p i (performed cs (c\<lparr>layerIds := l\<rparr>))"
    using assms by (simp add: ready_def performed_fields)
  from createLayer_run [OF this, of type] show ?thesis
    by (simp add: performed_fields performed_layerIds_update performed_performed)
qed

lemma createLayer_first:
  assumes "ready p i c"
  shows "createLayer type (performed cs c)
         = Inr (performed (cs @ createLayerCalls p i type) (c\<lparr>layerIds := layerIds c @ [i @ ''-'' @ type]\<rparr>))"
proof -
  have "ready p i (performed cs c)"
    using assms by (rule ready_performed)
  from createLayer_run [OF this, of type] show ?thesis
    by (simp add: performed_fields performed_layerIds_update performed_performed)
qed

lemma initialize_run:
  assumes "ready p i c"
  shows "initialize c
         = Inr (performed (initializeCalls p i (source c))
                  (c\<lparr>layerIds := layerIds c @ map (\<lambda>type. i @ ''-'' @ type) types\<rparr>))"
proof -
  have r: "props c = p" "this_id c = i" "context_map c \<noteq> None"
    using assms by (simp_all add: ready_def)
  have s0: "call_map (addSource i (source c)) c = Inr (performed [AddSource i (source c)] c)"
    using r by (simp add: addSource_def call_map_perform)
  show ?thesis
    unfolding initialize_def
    by (simp add: r s0 createLayer_first [OF assms] createLayer_step [OF assms]
        initializeCalls_def types_def)
qed

lemma handlerOff_run:
  assumes "ready p i c"
  shows "forEach types
          (\<lambda>type. forEach eventToHandler
             (\<lambda>(event, handlerName) c.
                case prop_handler (props c) (toCamelCase type @ handlerName) of
                  None \<Rightarrow> Inr c
                | Some h \<Rightarrow> call_map (off_layer event (buildLayerId c type) h) c)) c
         = Inr (performed (handlerOffCalls p i) c)"
  unfolding handlerOffCalls_def
proof (rule forEach_performed [where I = "ready p i"])
  show "ready p i c" by (rule assms)
next
  fix cs d assume "ready p i d"
  then show "ready p i (performed cs d)" by (rule ready_performed)
next
  fix type d assume d: "ready p i d"
  show "forEach eventToHandler
             (\<lambda>(event, handlerName) c.
                case prop_handler (props c) (toCamelCase type @ handlerName) of
                  None \<Rightarrow> Inr c
                | Some h \<Rightarrow> call_map (off_layer event (buildLayerId c type) h) c) d
        = Inr (performed (concat (map (\<lambda>(event, handlerName).
         case prop_handler p (toCamelCase type @ handlerName) of
           None \<Rightarrow> []
         | Some h \<Rightarrow> [OffLayer event (i @ ''-'' @ type) h]) eventToHandler)) d)"
  proof (rule forEach_performed [where I = "ready p i"])
    show "ready p i d" by (rule d)
  next
    fix cs e assume "ready p i e"
    then show "ready p i (performed cs e)" by (rule ready_performed)
  next
    fix x e assume "ready p i e"
    then show "(case x of (event, handlerName) \<Rightarrow> \<lambda>c.
                case prop_handler (props c) (toCamelCase type @ handlerName) of
                  None \<Rightarrow> Inr c
                | Some h \<Rightarrow> call_map (off_layer event (buildLayerId c type) h) c) e
          = Inr (performed (case x of (event, handlerName) \<Rightarrow>
         case prop_handler p (toCamelCase type @ handlerName) of
           None \<Rightarrow> []
         | Some h \<Rightarrow> [OffLayer event (i @ ''-'' @ type) h]) e)"
      by (cases x)
         (auto simp: ready_def call_map_perform off_layer_def performed_Nil buildLayerId_def
            split: option.splits)
  qed
qed

lemma removeLayers_run:
  assumes "context_map c = Some m"
  shows "forEach lIds
           (\<lambda>lId c. ask_map (getLayer lId) c
              (\<lambda>l. if l \<noteq> None then call_map (removeLayer lId) c else Inr c)) c
         = Inr (performed (map RemoveLayer (removeExisting lIds (layers m))) c)"
  using assms
proof (induction lIds arbitrary: c m)
  case Nil
  then show ?case by (simp add: performed_Nil)
next
  case (Cons lId lIds)
  show ?case
  proof (cases "lId \<in> set (layers m)")
    case True
    let ?c1 = "performed [RemoveLayer lId] c"
    have m1: "context_map ?c1 = Some (perform (RemoveLayer lId) m)"
      using Cons.prems by (simp add: performed_fields)
    have "layers (perform (RemoveLayer lId) m) = removeAll lId (layers m)"
      by (simp add: perform_def)
    with Cons.IH [OF m1] True Cons.prems show ?thesis
      by (simp add: ask_map_def getLayer_def removeLayer_def call_map_perform
          performed_performed)
  next
    case False
    with Cons.IH [OF Cons.prems] Cons.prems show ?thesis
      by (simp add: ask_map_def getLayer_def)
  qed
qed

lemma handlerOffCalls_not_structural: "x \<in> set (handlerOffCalls p i) \<Longrightarrow> \<not> structural x"
  by (auto simp: handlerOffCalls_def split: option.splits)

lemma unbind_run:
  assumes "context_map c = Some m"
  shows "unbind c = Inr (performed (unbindCalls (props c) (this_id c) (layerIds c) m) c)"
proof -
  let ?src = "if this_id c \<in> set (sources m) then [RemoveSource (this_id c)] else []"
  let ?off = "handlerOffCalls (props c) (this_id c)"
  let ?c1 = "performed ?src c"
  let ?c2 = "performed ?off ?c1"
  have r1: "ready (props c) (this_id c) ?c1"
    using assms by (simp add: ready_def performed_fields)
  have s1: "ask_map (getSource (this_id c)) c
          (\<lambda>src. if src \<noteq> None then call_map (removeSource (this_id c)) c else Inr c) = Inr ?c1"
    using assms by (simp add: ask_map_def getSource_def removeSource_def call_map_perform
        performed_Nil)
  have s2: "forEach types
          (\<lambda>type. forEach eventToHandler
             (\<lambda>(event, handlerName) c.
                case prop_handler (props c) (toCamelCase type @ handlerName) of
                  None \<Rightarrow> Inr c
                | Some h \<Rightarrow> call_map (off_layer event (buildLayerId c type) h) c)) ?c1 = Inr ?c2"
    by (rule handlerOff_run [OF r1])
  have m2: "context_map ?c2 = Some (fold perform ?off (fold perform ?src m))"
    using assms by (simp add: performed_fields)
  have "layers (fold perform ?off (fold perform ?src m)) = layers (fold perform ?src m)"
    by (rule layers_fold_perform) (auto dest: handlerOffCalls_not_structural)
  also have "\<dots> = layers m"
    by (simp add: perform_def)
  finally have l2: "layers (fold perform ?off (fold perform ?src m)) = layers m" .
  have s3: "forEach (layerIds ?c2)
           (\<lambda>lId c. ask_map (getLayer lId) c
              (\<lambda>l. if l \<noteq> None then call_map (removeLayer lId) c else Inr c)) ?c2
         = Inr (performed (map RemoveLayer (removeExisting (layerIds c) (layers m))) ?c2)"
    using removeLayers_run [OF m2, of "layerIds ?c2"] by (simp add: l2 performed_fields)
  have "unbind c = Inr (performed (map RemoveLayer (removeExisting (layerIds c) (layers m))) ?c2)"
    unfolding unbind_def by (simp only: s1 and_then_Inr s2 s3)
  then show ?thesis
    by (simp add: unbindCalls_def performed_performed)
qed

lemma componentWillUnmount_run:
  assumes "context_map c = Some m" and "getStyle m \<noteq> None"
  shows "componentWillUnmount c
         = Inr (performed (OffMap ''styledata'' # unbindCalls (props c) (this_id c) (layerIds c) m) c)"
proof -
  let ?c1 = "performed [OffMap ''styledata''] c"
  have m1: "context_map ?c1 = Some (perform (OffMap ''styledata'') m)"
    using assms(1) by (simp add: performed_fields)
  have same: "sources (perform (OffMap ''styledata'') m) = sources m"
    "layers (perform (OffMap ''styledata'') m) = layers m"
    by (simp_all add: perform_def)
  have "unbindCalls p i l (perform (OffMap ''styledata'') m) = unbindCalls p i l m" for p i l
    by (simp add: unbindCalls_def same)
  with unbind_run [OF m1] assms show ?thesis
    by (auto simp: componentWillUnmount_def off_map_def call_map_perform performed_fields
        performed_performed)
qed

lemma componentWillMount_run:
  assumes "context_map c = Some m"
  shows "componentWillMount c
         = Inr (performed (initializeCalls (props c) (this_id c) (source c) @ [OnMap ''styledata''])
                  (c\<lparr>layerIds := layerIds c @ map (buildLayerId c) types\<rparr>))"
proof -
  have r: "ready (props c) (this_id c) c"
    using assms by (simp add: ready_def)
  have b: "map (buildLayerId c) types = map (\<lambda>type. this_id c @ ''-'' @ type) types"
    by (simp add: buildLayerId_def)
  show ?thesis
    using assms
    by (simp add: componentWillMount_def initialize_run [OF r] on_map_def call_map_perform
        performed_fields performed_performed b)
qed

lemma onStyleDataChange_run:
  assumes "context_map c = Some m"
  shows "onStyleDataChange c =
     (if this_id c \<in> set (sources m) then Inr c
      else Inr (forceUpdate
                  (performed (unbindCalls (props c) (this_id c) (layerIds c) m
                              @ initializeCalls (props c) (this_id c) (source c))
                     (c\<lparr>layerIds := layerIds c @ map (buildLayerId c) types\<rparr>))))"
proof -
  let ?c1 = "performed (unbindCalls (props c) (this_id c) (layerIds c) m) c"
  have r1: "ready (props c) (this_id c) ?c1"
    using assms by (simp add: ready_def performed_fields)
  have b: "map (buildLayerId c) types = map (\<lambda>type. this_id c @ ''-'' @ type) types"
    by (simp add: buildLayerId_def)
  show ?thesis
    using assms
    by (simp add: onStyleDataChange_def ask_map_def getSource_def unbind_run [OF assms]
        initialize_run [OF r1] performed_fields performed_layerIds_update performed_performed b)
qed

lemma layerIds_after_rebind:
  assumes "context_map c = Some m"
    and "this_id c \<notin> set (sources m)"
    and "onStyleDataChange c = Inr c'"
  shows "layerIds c' = layerIds c @ map (buildLayerId c) types"
  using assms(2,3)
  by (auto simp: onStyleDataChange_run [OF assms(1)] forceUpdate_def performed_fields)

lemma set_removeExisting: "set (removeExisting lIds registered) = set lIds \<inter> set registered"
  by (induction lIds arbitrary: registered) auto

lemma distinct_removeExisting: "distinct (removeExisting lIds registered)"
  by (induction lIds arbitrary: registered) (auto simp: set_removeExisting)

lemma createLayerCalls_keep_sources:
  "x \<in> set (createLayerCalls p i type) \<Longrightarrow> sources (register x m) = sources m"
  by (auto simp: createLayerCalls_def mouseHandlerCalls_def split: option.splits)

lemma layerDescriptor_layout:
  assumes "\<forall>options. layerOptions p = Some options \<longrightarrow> ''layout'' \<notin> set (keys options)"
  shows "get (layerDescriptor p i type) ''layout''
         = Some (JObj (case prop_object p (toCamelCase type @ ''Layout'') of
                         Some layout \<Rightarrow> layout
                       | None \<Rightarrow>
                           (case prop_object p (toCamelCase type @ ''Paint'') of
                              None \<Rightarrow> [(''visibility'', JStr ''none'')]
                            | Some paint \<Rightarrow>
                                if paint = [] then [(''visibility'', JStr ''none'')]
                                else [(''visibility'', JStr ''visible'')])))"
proof (cases "layerOptions p")
  case None
  then show ?thesis
    by (simp add: layerDescriptor_def Let_def spread_opt_def get_def keys_def
        split: option.splits)
next
  case (Some options)
  then have "''layout'' \<notin> set (keys options)" using assms by simp
  then show ?thesis
    using Some
    by (simp add: layerDescriptor_def Let_def spread_opt_def get_spread_other)
       (simp add: get_def keys_def split: option.splits)
qed

lemma mouseHandlerCalls_not_structural: "x \<in> set (mouseHandlerCalls p i type) \<Longrightarrow> \<not> structural x"
  by (auto simp: mouseHandlerCalls_def split: option.splits)




subsection \<open>The examples\<close>

lemma mounted_component_fields:
  "context_map mounted_component = Some mounted_map"
  "this_id mounted_component = ''g''"
  "props mounted_component = example_props"
  by (simp_all add: mounted_component_def GeoJSONLayer_def example_props_def)

lemma mounted_component_layerIds:
  "layerIds mounted_component = [''g-symbol'', ''g-line'', ''g-fill'', ''g-fill-extrusion'', ''g-circle'']"
  by (simp add: mounted_component_def)

lemma handlerOffCalls_example:
  "handlerOffCalls example_props ''g'' = [OffLayer ''click'' ''g-fill-extrusion'' 7]"
  by (simp add: handlerOffCalls_def types_def eventToHandler_def prop_handler_def
      example_props_def toCamelCase_symbol toCamelCase_line toCamelCase_fill
      toCamelCase_fill_extrusion toCamelCase_circle)

lemma unbindCalls_example:
  "unbindCalls example_props ''g''
     [''g-symbol'', ''g-line'', ''g-fill'', ''g-fill-extrusion'', ''g-circle''] mounted_map
   = [RemoveSource ''g'', OffLayer ''click'' ''g-fill-extrusion'' 7,
      RemoveLayer ''g-symbol'', RemoveLayer ''g-line'', RemoveLayer ''g-fill'',
      RemoveLayer ''g-fill-extrusion'', RemoveLayer ''g-circle'']"
  by (simp add: unbindCalls_def handlerOffCalls_example mounted_map_def)

lemma mounted_component_is_mounted:
  "map_sum id forget_calls (componentWillMount (GeoJSONLayer example_props ''u'' (Some empty_map)))
   = Inr mounted_component"
proof -
  let ?c = "GeoJSONLayer example_props ''u'' (Some empty_map)"
  have f: "context_map ?c = Some empty_map" "this_id ?c = ''g''" "layerIds ?c = []"
    "props ?c = example_props"
    by (simp_all add: GeoJSONLayer_def example_props_def)
  have d: "layer_id (layerDescriptor example_props ''g'' type) = ''g-'' @ type" for type
    by (simp add: layerDescriptor_def Let_def spread_opt_def example_props_def layer_id_def get_def)
  have h: "mouseHandlerCalls example_props ''g'' type
           = (if type = ''fill-extrusion'' then [OnLayer ''click'' ''g-fill-extrusion'' 7] else [])"
    if "type \<in> set types" for type
    using that
    by (auto simp: mouseHandlerCalls_def eventToHandler_def prop_handler_def example_props_def
        types_def toCamelCase_symbol toCamelCase_line toCamelCase_fill
        toCamelCase_fill_extrusion toCamelCase_circle)
  have b: "before_prop example_props = None"
    by (simp add: example_props_def)
  have idp: "id_prop example_props = Some ''g''"
    by (simp add: example_props_def)
  have cs: "initializeCalls example_props ''g'' src @ [OnMap ''styledata'']
            = [AddSource ''g'' src,
               AddLayer (layerDescriptor example_props ''g'' ''symbol'') None,
               AddLayer (layerDescriptor example_props ''g'' ''line'') None,
               AddLayer (layerDescriptor example_props ''g'' ''fill'') None,
               AddLayer (layerDescriptor example_props ''g'' ''fill-extrusion'') None,
               OnLayer ''click'' ''g-fill-extrusion'' 7,
               AddLayer (layerDescriptor example_props ''g'' ''circle'') None,
               OnMap ''styledata'']" for src
    by (simp add: initializeCalls_def createLayerCalls_def types_def h b)
  have "(fold perform (initializeCalls example_props ''g'' src @ [OnMap ''styledata'']) empty_map)
             \<lparr>calls := []\<rparr> = mounted_map" for src
    unfolding cs by (simp add: perform_def d empty_map_def mounted_map_def)
  then have m: "(perform (OnMap ''styledata'')
                  (fold perform (initializeCalls example_props ''g'' src) empty_map))
             \<lparr>calls := []\<rparr> = mounted_map" for src
    by simp
  have "map_sum id forget_calls (componentWillMount ?c)
        = Inr (forget_calls
            (performed (initializeCalls (props ?c) (this_id ?c) (source ?c) @ [OnMap ''styledata''])
               (?c\<lparr>layerIds := layerIds ?c @ map (buildLayerId ?c) types\<rparr>)))"
    by (simp only: componentWillMount_run [OF f(1)] map_sum.simps)
  also have "\<dots> = Inr mounted_component"
    unfolding forget_calls_def performed_def f
    by (simp add: m buildLayerId_def f types_def mounted_component_def GeoJSONLayer_def idp)
  finally show ?thesis .
qed

section \<open>The claims\<close>

subsection \<open>Changed paint properties\<close>

text \<open>
  C1, as the code has it. Let \<open>P1\<close> be the current and \<open>P2\<close> the next paint object of a layer
  type, both supplied and neither with a key twice. When \<open>isEqual\<close>, whatever it is, finds
  \<open>P2\<close> and \<open>P1\<close> equal, the update makes no \<open>setPaintProperty\<close> call on the layer of that
  type. When it finds them different, the update makes, for every key, exactly one
  \<open>setPaintProperty\<close> call on that layer if the value under the key in \<open>P2\<close> is not (by
  \<open>!==\<close>) the value under it in \<open>P1\<close>, carrying the value of \<open>P2\<close>, which is \<open>undefined\<close> for
  a key that \<open>P2\<close> lacks; and it makes no call for a key whose two values are the same.
\<close>

theorem changed_paint_keys_are_set_once:
  assumes "context_map c = Some m"
    and "strict_equal (data nextProps) (data (props c)) \<or> getSource (this_id c) m \<noteq> None"
    and "type \<in> set types"
    and "prop_held (props c) (toCamelCase type @ ''Paint'') = Some P1"
    and "prop_held nextProps (toCamelCase type @ ''Paint'') = Some P2"
    and "distinct (map fst P1)"
    and "distinct (map fst P2)"
  shows "\<exists>c' m' new.
           componentWillReceiveProps isEqual nextProps c = Inr c'
           \<and> context_map c' = Some m'
           \<and> calls m' = calls m @ new
           \<and> (isEqual (Some (JObj (contents P2))) (Some (JObj (contents P1))) \<longrightarrow>
                (\<forall>key. filter (sets_paint (buildLayerId c type) key) new = []))
           \<and> (\<not> isEqual (Some (JObj (contents P2))) (Some (JObj (contents P1))) \<longrightarrow>
                (\<forall>key. filter (sets_paint (buildLayerId c type) key) new
                   = (if identical (map_of P1 key) (map_of P2 key) then []
                      else [SetPaintProperty (buildLayerId c type) key
                              (map_option content (map_of P2 key))])))"
proof -
  let ?pre = "if strict_equal (data nextProps) (data (props c)) then []
              else [SetData (this_id c) (data nextProps)]"
  let ?new = "?pre @ updateCalls isEqual (props c) nextProps (this_id c)"
  from componentWillReceiveProps_calls [OF assms(1,2), where isEqual = isEqual] obtain c' m' where
    run: "componentWillReceiveProps isEqual nextProps c = Inr c'" "context_map c' = Some m'"
      "calls m' = calls m @ ?new"
    by auto
  have "filter (sets_paint (buildLayerId c type) key) ?new
        = (if isEqual (Some (JObj (contents P2))) (Some (JObj (contents P1)))
               \<or> identical (map_of P1 key) (map_of P2 key)
            then []
            else [SetPaintProperty (buildLayerId c type) key
                    (map_option content (map_of P2 key))])" for key
    unfolding buildLayerId_def
    using filter_sets_paint_updateCalls
            [where isEqual = isEqual and i = "this_id c", OF assms(3,4,5,6,7), of key]
    by simp
  then show ?thesis
    using run by (intro exI [of _ c'] exI [of _ m'] exI [of _ ?new]) simp
qed

theorem changed_paint_keys_are_set_once_witness:
  "context_map mounted_component = Some mounted_map
   \<and> ''line'' \<in> set types
   \<and> prop_object (props mounted_component) (toCamelCase ''line'' @ ''Paint'')
       = Some [(''line-color'', JStr ''#000''), (''line-width'', JNum 2)]
   \<and> prop_object repaint_props (toCamelCase ''line'' @ ''Paint'')
       = Some [(''line-color'', JStr ''#fff''), (''line-width'', JNum 2), (''line-opacity'', JNum 1)]
   \<and> \<not> same_content
          (Some (JObj [(''line-color'', JStr ''#fff''), (''line-width'', JNum 2), (''line-opacity'', JNum 1)]))
          (Some (JObj [(''line-color'', JStr ''#000''), (''line-width'', JNum 2)]))
   \<and> (\<exists>c' m' new.
         componentWillReceiveProps same_content repaint_props mounted_component = Inr c'
         \<and> context_map c' = Some m'
         \<and> calls m' = calls mounted_map @ new
         \<and> filter (sets_paint ''g-line'' ''line-color'') new
             = [SetPaintProperty ''g-line'' ''line-color'' (Some (JStr ''#fff''))]
         \<and> filter (sets_paint ''g-line'' ''line-opacity'') new
             = [SetPaintProperty ''g-line'' ''line-opacity'' (Some (JNum 1))]
         \<and> filter (sets_paint ''g-line'' ''line-width'') new = [])"
proof -
  let ?P1 = "[(''line-color'', Held 0 (JStr ''#000'')), (''line-width'', Held 0 (JNum 2))]"
  let ?P2 = "[(''line-color'', Held 0 (JStr ''#fff'')), (''line-width'', Held 0 (JNum 2)),
              (''line-opacity'', Held 0 (JNum 1))]"
  have h1: "context_map mounted_component = Some mounted_map"
    by (rule mounted_component_fields)
  have h2: "strict_equal (data repaint_props) (data (props mounted_component))
            \<or> getSource (this_id mounted_component) mounted_map \<noteq> None"
    by (simp add: mounted_component_fields repaint_props_def example_props_def)
  have h3: "''line'' \<in> set types"
    by (simp add: types_def)
  have h4: "prop_held (props mounted_component) (toCamelCase ''line'' @ ''Paint'') = Some ?P1"
    by (simp add: mounted_component_fields toCamelCase_line prop_held_def example_props_def)
  have h5: "prop_held repaint_props (toCamelCase ''line'' @ ''Paint'') = Some ?P2"
    by (simp add: toCamelCase_line prop_held_def repaint_props_def)
  have h6: "distinct (map fst ?P1)"
    by simp
  have h7: "distinct (map fst ?P2)"
    by simp
  have g: "\<not> same_content (Some (JObj (contents ?P2))) (Some (JObj (contents ?P1)))"
    by (simp add: same_content_def contents_def)
  from changed_paint_keys_are_set_once [where isEqual = same_content, OF h1 h2 h3 h4 h5 h6 h7]
  obtain c' m' new where
    run: "componentWillReceiveProps same_content repaint_props mounted_component = Inr c'"
      "context_map c' = Some m'" "calls m' = calls mounted_map @ new"
    and changed: "\<not> same_content (Some (JObj (contents ?P2))) (Some (JObj (contents ?P1))) \<Longrightarrow>
        filter (sets_paint (buildLayerId mounted_component ''line'') key) new
          = (if identical (map_of ?P1 key) (map_of ?P2 key) then []
             else [SetPaintProperty (buildLayerId mounted_component ''line'') key
                     (map_option content (map_of ?P2 key))])" for key
    by blast
  have l: "buildLayerId mounted_component ''line'' = ''g-line''"
    by (simp add: buildLayerId_def mounted_component_fields)
  have a: "filter (sets_paint ''g-line'' ''line-color'') new
             = [SetPaintProperty ''g-line'' ''line-color'' (Some (JStr ''#fff''))]"
    using changed [OF g, of "''line-color''"] by (simp add: l)
  have b: "filter (sets_paint ''g-line'' ''line-opacity'') new
             = [SetPaintProperty ''g-line'' ''line-opacity'' (Some (JNum 1))]"
    using changed [OF g, of "''line-opacity''"] by (simp add: l)
  have c: "filter (sets_paint ''g-line'' ''line-width'') new = []"
    using changed [OF g, of "''line-width''"] by (simp add: l)
  have p1: "prop_object (props mounted_component) (toCamelCase ''line'' @ ''Paint'')
       = Some [(''line-color'', JStr ''#000''), (''line-width'', JNum 2)]"
    by (simp add: prop_object_def h4 contents_def)
  have p2: "prop_object repaint_props (toCamelCase ''line'' @ ''Paint'')
       = Some [(''line-color'', JStr ''#fff''), (''line-width'', JNum 2), (''line-opacity'', JNum 1)]"
    by (simp add: prop_object_def h5 contents_def)
  have g': "\<not> same_content
          (Some (JObj [(''line-color'', JStr ''#fff''), (''line-width'', JNum 2), (''line-opacity'', JNum 1)]))
          (Some (JObj [(''line-color'', JStr ''#000''), (''line-width'', JNum 2)]))"
    by (simp add: same_content_def)
  show ?thesis
    using h1 h3 p1 p2 g' run a b c by blast
qed

text \<open>
  C1 as stated fails on a paint value that is an array. The paints below hold a dash array
  of the same numbers that was built twice, so two arrays. When nothing else differs,
  \<open>isEqual\<close> finds the two paints equal and the update makes no call, though the value
  under \<open>line-dasharray\<close> is another array. When the colour differs as well, the update
  sets \<open>line-dasharray\<close> again, though its content is what it was.
\<close>

theorem rebuilt_array_is_set_again_or_not_at_all:
  "prop_held dash_props ''linePaint''
     = Some [(''line-dasharray'', Held 1 (JArr [JNum 2, JNum 1])),
             (''line-color'', Held 0 (JStr ''#000''))]
   \<and> prop_held rebuilt_props ''linePaint''
       = Some [(''line-dasharray'', Held 2 (JArr [JNum 2, JNum 1])),
               (''line-color'', Held 0 (JStr ''#000''))]
   \<and> prop_held recoloured_props ''linePaint''
       = Some [(''line-dasharray'', Held 2 (JArr [JNum 2, JNum 1])),
               (''line-color'', Held 0 (JStr ''#fff''))]
   \<and> \<not> identical (Some (Held 1 (JArr [JNum 2, JNum 1]))) (Some (Held 2 (JArr [JNum 2, JNum 1])))
   \<and> content (Held 1 (JArr [JNum 2, JNum 1])) = content (Held 2 (JArr [JNum 2, JNum 1]))
   \<and> calls_of (componentWillReceiveProps same_content rebuilt_props
                 (mounted_component\<lparr>props := dash_props\<rparr>)) = Some []
   \<and> calls_of (componentWillReceiveProps same_content recoloured_props
                 (mounted_component\<lparr>props := dash_props\<rparr>))
       = Some [SetPaintProperty ''g-line'' ''line-dasharray'' (Some (JArr [JNum 2, JNum 1])),
               SetPaintProperty ''g-line'' ''line-color'' (Some (JStr ''#fff''))]"
proof -
  let ?c = "mounted_component\<lparr>props := dash_props\<rparr>"
  have m: "context_map ?c = Some mounted_map"
    by (simp add: mounted_component_fields)
  have i: "this_id ?c = ''g''" "props ?c = dash_props"
    by (simp_all add: mounted_component_fields)
  have e: "calls mounted_map = []"
    by (simp add: mounted_map_def)
  have u1: "updateCalls same_content dash_props rebuilt_props ''g'' = []"
    by (simp add: updateCalls_def typeCalls_def filterCalls_def filterChanged_def paintCalls_def
        layoutCalls_def handlerCalls_def moveCalls_def types_def eventToHandler_def
        dash_props_def rebuilt_props_def example_props_def prop_object_def prop_held_def
        contents_def prop_handler_def same_content_def Let_def)
  have u2: "updateCalls same_content dash_props recoloured_props ''g''
            = [SetPaintProperty ''g-line'' ''line-dasharray'' (Some (JArr [JNum 2, JNum 1])),
               SetPaintProperty ''g-line'' ''line-color'' (Some (JStr ''#fff''))]"
    by (simp add: updateCalls_def typeCalls_def filterCalls_def filterChanged_def paintCalls_def
        layoutCalls_def handlerCalls_def moveCalls_def types_def eventToHandler_def
        dash_props_def recoloured_props_def example_props_def prop_object_def prop_held_def
        contents_def prop_handler_def same_content_def diff_def toCamelCase_line
        toCamelCase_symbol toCamelCase_fill toCamelCase_fill_extrusion toCamelCase_circle Let_def)
  have s1: "strict_equal (data rebuilt_props) (data dash_props)"
    by (simp add: rebuilt_props_def dash_props_def example_props_def)
  have s2: "strict_equal (data recoloured_props) (data dash_props)"
    by (simp add: recoloured_props_def dash_props_def example_props_def)
  have r1: "componentWillReceiveProps same_content rebuilt_props ?c = Inr (performed [] ?c)"
    using s1 u1 by (simp add: componentWillReceiveProps_run [OF m] i)
  have r2: "componentWillReceiveProps same_content recoloured_props ?c
            = Inr (performed [SetPaintProperty ''g-line'' ''line-dasharray'' (Some (JArr [JNum 2, JNum 1])),
                              SetPaintProperty ''g-line'' ''line-color'' (Some (JStr ''#fff''))] ?c)"
    using s2 u2 by (simp add: componentWillReceiveProps_run [OF m] i)
  have c1: "calls_of (componentWillReceiveProps same_content rebuilt_props ?c) = Some []"
    unfolding r1 by (simp add: calls_of_performed [OF m] e)
  have c2: "calls_of (componentWillReceiveProps same_content recoloured_props ?c)
       = Some [SetPaintProperty ''g-line'' ''line-dasharray'' (Some (JArr [JNum 2, JNum 1])),
               SetPaintProperty ''g-line'' ''line-color'' (Some (JStr ''#fff''))]"
    unfolding r2 by (simp add: calls_of_performed [OF m] e)
  have p: "prop_held dash_props ''linePaint''
     = Some [(''line-dasharray'', Held 1 (JArr [JNum 2, JNum 1])),
             (''line-color'', Held 0 (JStr ''#000''))]"
    "prop_held rebuilt_props ''linePaint''
       = Some [(''line-dasharray'', Held 2 (JArr [JNum 2, JNum 1])),
               (''line-color'', Held 0 (JStr ''#000''))]"
    "prop_held recoloured_props ''linePaint''
       = Some [(''line-dasharray'', Held 2 (JArr [JNum 2, JNum 1])),
               (''line-color'', Held 0 (JStr ''#fff''))]"
    by (simp_all add: prop_held_def dash_props_def rebuilt_props_def recoloured_props_def)
  have d: "\<not> identical (Some (Held 1 (JArr [JNum 2, JNum 1]))) (Some (Held 2 (JArr [JNum 2, JNum 1])))"
    "content (Held 1 (JArr [JNum 2, JNum 1])) = content (Held 2 (JArr [JNum 2, JNum 1]))"
    by simp_all
  show ?thesis
    using p d c1 c2 by blast
qed

subsection \<open>The layout of a new layer\<close>

text \<open>
  C2, as the code has it. When the generic layer options have no \<open>layout\<close> entry,
  \<open>createLayer\<close>, which \<open>initialize\<close> runs for each layer type at mount time, adds the layer
  with the explicit layout of the type if there is one; without it, with
  \<open>{visibility: 'visible'}\<close> when the paint of the type has a key, and with
  \<open>{visibility: 'none'}\<close> when the paint is missing or empty.
\<close>

theorem createLayer_default_layout:
  assumes "context_map c = Some m"
    and "\<forall>options. layerOptions (props c) = Some options \<longrightarrow> ''layout'' \<notin> set (keys options)"
  shows "\<exists>c' m' layer handlers.
           createLayer type c = Inr c'
           \<and> context_map c' = Some m'
           \<and> calls m' = calls m @ AddLayer layer (before_prop (props c)) # handlers
           \<and> (\<forall>x \<in> set handlers. \<not> structural x)
           \<and> (\<forall>layout. prop_object (props c) (toCamelCase type @ ''Layout'') = Some layout \<longrightarrow>
                  get layer ''layout'' = Some (JObj layout))
           \<and> (prop_object (props c) (toCamelCase type @ ''Layout'') = None
                \<and> (\<exists>paint. prop_object (props c) (toCamelCase type @ ''Paint'') = Some paint
                             \<and> paint \<noteq> []) \<longrightarrow>
                  get layer ''layout'' = Some (JObj [(''visibility'', JStr ''visible'')]))
           \<and> (prop_object (props c) (toCamelCase type @ ''Layout'') = None
                \<and> (prop_object (props c) (toCamelCase type @ ''Paint'') = None
                     \<or> prop_object (props c) (toCamelCase type @ ''Paint'') = Some []) \<longrightarrow>
                  get layer ''layout'' = Some (JObj [(''visibility'', JStr ''none'')]))"
proof -
  let ?layer = "layerDescriptor (props c) (this_id c) type"
  let ?handlers = "mouseHandlerCalls (props c) (this_id c) type"
  let ?c' = "performed (createLayerCalls (props c) (this_id c) type)
               (c\<lparr>layerIds := layerIds c @ [this_id c @ ''-'' @ type]\<rparr>)"
  have r: "ready (props c) (this_id c) c"
    using assms(1) by (simp add: ready_def)
  have run: "createLayer type c = Inr ?c'"
    by (rule createLayer_run [OF r])
  have m': "context_map ?c' = Some (fold perform (createLayerCalls (props c) (this_id c) type) m)"
    using assms(1) by (simp add: performed_fields)
  have cs: "calls (fold perform (createLayerCalls (props c) (this_id c) type) m)
            = calls m @ AddLayer ?layer (before_prop (props c)) # ?handlers"
    by (simp only: calls_fold_perform createLayerCalls_def)
  have ns: "\<forall>x \<in> set ?handlers. \<not> structural x"
    by (auto dest: mouseHandlerCalls_not_structural)
  have lay: "get ?layer ''layout''
         = Some (JObj (case prop_object (props c) (toCamelCase type @ ''Layout'') of
                         Some layout \<Rightarrow> layout
                       | None \<Rightarrow>
                           (case prop_object (props c) (toCamelCase type @ ''Paint'') of
                              None \<Rightarrow> [(''visibility'', JStr ''none'')]
                            | Some paint \<Rightarrow>
                                if paint = [] then [(''visibility'', JStr ''none'')]
                                else [(''visibility'', JStr ''visible'')])))"
    by (rule layerDescriptor_layout [OF assms(2)])
  have l1: "\<forall>layout. prop_object (props c) (toCamelCase type @ ''Layout'') = Some layout \<longrightarrow>
                  get ?layer ''layout'' = Some (JObj layout)"
    using lay by simp
  have l2: "prop_object (props c) (toCamelCase type @ ''Layout'') = None
                \<and> (\<exists>paint. prop_object (props c) (toCamelCase type @ ''Paint'') = Some paint
                             \<and> paint \<noteq> []) \<longrightarrow>
                  get ?layer ''layout'' = Some (JObj [(''visibility'', JStr ''visible'')])"
    using lay by auto
  have l3: "prop_object (props c) (toCamelCase type @ ''Layout'') = None
                \<and> (prop_object (props c) (toCamelCase type @ ''Paint'') = None
                     \<or> prop_object (props c) (toCamelCase type @ ''Paint'') = Some []) \<longrightarrow>
                  get ?layer ''layout'' = Some (JObj [(''visibility'', JStr ''none'')])"
    using lay by auto
  show ?thesis
    using run m' cs ns l1 l2 l3 by blast
qed

theorem createLayer_default_layout_witness:
  "(\<exists>c' m' layer handlers.
      createLayer ''line'' (GeoJSONLayer example_props ''u'' (Some empty_map)) = Inr c'
      \<and> context_map c' = Some m'
      \<and> calls m' = AddLayer layer None # handlers
      \<and> get layer ''layout'' = Some (JObj [(''visibility'', JStr ''visible'')]))
   \<and> (\<exists>c' m' layer handlers.
      createLayer ''fill'' (GeoJSONLayer example_props ''u'' (Some empty_map)) = Inr c'
      \<and> context_map c' = Some m'
      \<and> calls m' = AddLayer layer None # handlers
      \<and> get layer ''layout'' = Some (JObj [(''visibility'', JStr ''none'')]))
   \<and> (\<exists>c' m' layer handlers.
      createLayer ''line'' (GeoJSONLayer layout_props ''u'' (Some empty_map)) = Inr c'
      \<and> context_map c' = Some m'
      \<and> calls m' = AddLayer layer None # handlers
      \<and> get layer ''layout'' = Some (JObj [(''line-cap'', JStr ''round'')]))"
proof -
  let ?c = "GeoJSONLayer example_props ''u'' (Some empty_map)"
  let ?d = "GeoJSONLayer layout_props ''u'' (Some empty_map)"
  have c1: "context_map ?c = Some empty_map" by (simp add: GeoJSONLayer_def)
  have c2: "\<forall>options. layerOptions (props ?c) = Some options \<longrightarrow> ''layout'' \<notin> set (keys options)"
    by (simp add: GeoJSONLayer_def example_props_def)
  have d1: "context_map ?d = Some empty_map" by (simp add: GeoJSONLayer_def)
  have d2: "\<forall>options. layerOptions (props ?d) = Some options \<longrightarrow> ''layout'' \<notin> set (keys options)"
    by (simp add: GeoJSONLayer_def layout_props_def example_props_def)
  have pc: "props ?c = example_props" "props ?d = layout_props"
    by (simp_all add: GeoJSONLayer_def)
  have e: "calls empty_map = []" by (simp add: empty_map_def)
  have line: "prop_object example_props (toCamelCase ''line'' @ ''Layout'') = None"
    "prop_object example_props (toCamelCase ''line'' @ ''Paint'')
       = Some [(''line-color'', JStr ''#000''), (''line-width'', JNum 2)]"
    "before_prop example_props = None"
    by (simp_all add: toCamelCase_line prop_object_def prop_held_def contents_def example_props_def)
  have fill: "prop_object example_props (toCamelCase ''fill'' @ ''Layout'') = None"
    "prop_object example_props (toCamelCase ''fill'' @ ''Paint'') = None"
    by (simp_all add: toCamelCase_fill prop_object_def prop_held_def contents_def example_props_def)
  have lay: "prop_object layout_props (toCamelCase ''line'' @ ''Layout'')
       = Some [(''line-cap'', JStr ''round'')]"
    "before_prop layout_props = None"
    by (simp_all add: toCamelCase_line prop_object_def prop_held_def contents_def layout_props_def example_props_def)
  have 1: "\<exists>c' m' layer handlers.
      createLayer ''line'' ?c = Inr c'
      \<and> context_map c' = Some m'
      \<and> calls m' = AddLayer layer None # handlers
      \<and> get layer ''layout'' = Some (JObj [(''visibility'', JStr ''visible'')])"
    using createLayer_default_layout [OF c1 c2, of "''line''"]
    by (simp add: pc e line) blast
  have 2: "\<exists>c' m' layer handlers.
      createLayer ''fill'' ?c = Inr c'
      \<and> context_map c' = Some m'
      \<and> calls m' = AddLayer layer None # handlers
      \<and> get layer ''layout'' = Some (JObj [(''visibility'', JStr ''none'')])"
    using createLayer_default_layout [OF c1 c2, of "''fill''"]
    by (simp add: pc e fill line(3)) blast
  have 3: "\<exists>c' m' layer handlers.
      createLayer ''line'' ?d = Inr c'
      \<and> context_map c' = Some m'
      \<and> calls m' = AddLayer layer None # handlers
      \<and> get layer ''layout'' = Some (JObj [(''line-cap'', JStr ''round'')])"
    using createLayer_default_layout [OF d1 d2, of "''line''"]
    by (simp add: pc e lay) blast
  show ?thesis
    using 1 2 3 by (intro conjI)
qed

text \<open>
  C2 as stated fails when the generic layer options carry a \<open>layout\<close> entry: they are
  spread last into the descriptor, so their layout replaces the explicit layout of the type.
\<close>

theorem layerOptions_layout_replaces_explicit_layout:
  "prop_object override_props (toCamelCase ''line'' @ ''Layout'') = Some [(''line-cap'', JStr ''round'')]
   \<and> calls_of (createLayer ''line'' (GeoJSONLayer override_props ''u'' (Some empty_map)))
       = Some [AddLayer
                 [(''id'', JStr ''g-line''), (''source'', JStr ''g''), (''type'', JStr ''line''),
                  (''paint'', JObj []),
                  (''layout'', JObj [(''visibility'', JStr ''none'')])]
                 None]"
proof -
  let ?c = "GeoJSONLayer override_props ''u'' (Some empty_map)"
  have f: "props ?c = override_props" "this_id ?c = ''g''" "context_map ?c = Some empty_map"
    by (simp_all add: GeoJSONLayer_def override_props_def example_props_def)
  have r: "ready override_props ''g'' ?c"
    by (simp add: ready_def f)
  have p: "prop_object override_props (toCamelCase ''line'' @ ''Layout'') = Some [(''line-cap'', JStr ''round'')]"
    "prop_object override_props (toCamelCase ''line'' @ ''Paint'') = None"
    by (simp_all add: toCamelCase_line prop_object_def prop_held_def contents_def override_props_def)
  have h: "mouseHandlerCalls override_props ''g'' ''line'' = []"
    by (simp add: mouseHandlerCalls_def eventToHandler_def toCamelCase_line prop_handler_def
        override_props_def example_props_def)
  have l: "layerDescriptor override_props ''g'' ''line''
           = [(''id'', JStr ''g-line''), (''source'', JStr ''g''), (''type'', JStr ''line''),
              (''paint'', JObj []),
              (''layout'', JObj [(''visibility'', JStr ''none'')])]"
    unfolding layerDescriptor_def Let_def p
    by (simp add: override_props_def spread_opt_def spread_def)
  have b: "before_prop override_props = None"
    by (simp add: override_props_def example_props_def)
  have f': "context_map (?c\<lparr>layerIds := layerIds ?c @ [''g'' @ ''-'' @ ''line'']\<rparr>) = Some empty_map"
    by (simp add: f)
  have "calls_of (createLayer ''line'' ?c)
        = Some (calls empty_map @ createLayerCalls override_props ''g'' ''line'')"
    by (simp only: createLayer_run [OF r] calls_of_performed [OF f'])
  then show ?thesis
    by (simp add: p createLayerCalls_def h l b empty_map_def)
qed

subsection \<open>\<open>layerIds\<close> after a rebind\<close>

text \<open>
  C3. \<open>createLayer\<close> appends to \<open>layerIds\<close> and nothing empties it: after a mount and one
  rebind on a replaced style, \<open>layerIds\<close> holds every layer identifier twice.
\<close>

theorem layerIds_repeat_after_rebind:
  "layerIds_of (and_then (componentWillMount (GeoJSONLayer example_props ''u'' (Some empty_map)))
                  style_replaced)
   = Some [''g-symbol'', ''g-line'', ''g-fill'', ''g-fill-extrusion'', ''g-circle'',
           ''g-symbol'', ''g-line'', ''g-fill'', ''g-fill-extrusion'', ''g-circle'']"
proof -
  let ?c = "GeoJSONLayer example_props ''u'' (Some empty_map)"
  have f: "context_map ?c = Some empty_map" "this_id ?c = ''g''" "layerIds ?c = []"
    by (simp_all add: GeoJSONLayer_def example_props_def)
  let ?c1 = "performed (initializeCalls (props ?c) (this_id ?c) (source ?c) @ [OnMap ''styledata''])
                  (?c\<lparr>layerIds := layerIds ?c @ map (buildLayerId ?c) types\<rparr>)"
  let ?c2 = "?c1\<lparr>context_map := map_option style_reset (context_map ?c1)\<rparr>"
  have mount: "componentWillMount ?c = Inr ?c1"
    by (rule componentWillMount_run [OF f(1)])
  obtain m2 where m2: "context_map ?c2 = Some (style_reset m2)"
    by (simp add: performed_fields f)
  have absent: "this_id ?c2 \<notin> set (sources (style_reset m2))"
    by (simp add: style_reset_def)
  have "layerIds_of (and_then (componentWillMount ?c) style_replaced)
        = layerIds_of (onStyleDataChange ?c2)"
    by (simp add: mount style_replaced_def)
  also have "\<dots> = Some (layerIds ?c2 @ map (buildLayerId ?c2) types)"
    using absent
    by (simp only: onStyleDataChange_run [OF m2] if_False layerIds_of_def sum.case)
       (simp add: forceUpdate_def performed_fields)
  finally show ?thesis
    by (simp add: performed_fields f buildLayerId_def types_def)
qed

subsection \<open>A changed filter\<close>

text \<open>
  C4, as the code has it. When the current and the next properties both carry
  \<open>layerOptions\<close> and \<open>isEqual\<close>, whatever it is, finds their filters different, the update
  calls \<open>setFilter\<close> once for each of the five layer identifiers, in the order of \<open>types\<close>,
  with the next filter, or with \<open>[]\<close> when the next filter is missing or falsy; it makes no
  other \<open>setFilter\<close> call.
\<close>

theorem changed_filter_is_set_on_every_layer:
  assumes "context_map c = Some m"
    and "strict_equal (data nextProps) (data (props c)) \<or> getSource (this_id c) m \<noteq> None"
    and "layerOptions (props c) = Some options"
    and "layerOptions nextProps = Some next_options"
    and "\<not> isEqual (get next_options ''filter'') (get options ''filter'')"
  shows "\<exists>c' m' new.
           componentWillReceiveProps isEqual nextProps c = Inr c'
           \<and> context_map c' = Some m'
           \<and> calls m' = calls m @ new
           \<and> filter sets_filter new
               = map (\<lambda>type. SetFilter (buildLayerId c type)
                                (or_else (get next_options ''filter'') (JArr []))) types"
proof -
  let ?pre = "if strict_equal (data nextProps) (data (props c)) then []
              else [SetData (this_id c) (data nextProps)]"
  let ?new = "?pre @ updateCalls isEqual (props c) nextProps (this_id c)"
  from componentWillReceiveProps_calls [OF assms(1,2), where isEqual = isEqual] obtain c' m' where
    run: "componentWillReceiveProps isEqual nextProps c = Inr c'" "context_map c' = Some m'"
      "calls m' = calls m @ ?new"
    by auto
  have "filter sets_filter ?new
        = map (\<lambda>type. SetFilter (buildLayerId c type)
                         (or_else (get next_options ''filter'') (JArr []))) types"
    unfolding buildLayerId_def
    using filter_sets_filter_updateCalls
            [where isEqual = isEqual and i = "this_id c", OF assms(3,4,5)]
    by simp
  then show ?thesis
    using run by (intro exI [of _ c'] exI [of _ m'] exI [of _ ?new]) simp
qed

theorem changed_filter_is_set_on_every_layer_witness:
  "context_map (mounted_component\<lparr>props := filter_props\<rparr>) = Some mounted_map
   \<and> strict_equal (data refilter_props) (data filter_props)
   \<and> \<not> same_content (layer_filter refilter_props) (layer_filter filter_props)
   \<and> (\<exists>c' m' new.
         componentWillReceiveProps same_content refilter_props (mounted_component\<lparr>props := filter_props\<rparr>) = Inr c'
         \<and> context_map c' = Some m'
         \<and> calls m' = calls mounted_map @ new
         \<and> filter sets_filter new
             = [SetFilter ''g-symbol'' (JArr [JStr ''=='', JStr ''kind'', JStr ''rail'']),
                SetFilter ''g-line'' (JArr [JStr ''=='', JStr ''kind'', JStr ''rail'']),
                SetFilter ''g-fill'' (JArr [JStr ''=='', JStr ''kind'', JStr ''rail'']),
                SetFilter ''g-fill-extrusion'' (JArr [JStr ''=='', JStr ''kind'', JStr ''rail'']),
                SetFilter ''g-circle'' (JArr [JStr ''=='', JStr ''kind'', JStr ''rail''])])"
proof -
  let ?c = "mounted_component\<lparr>props := filter_props\<rparr>"
  have h1: "context_map ?c = Some mounted_map"
    by (simp add: mounted_component_fields)
  have h2: "strict_equal (data refilter_props) (data (props ?c))
            \<or> getSource (this_id ?c) mounted_map \<noteq> None"
    by (simp add: refilter_props_def filter_props_def example_props_def)
  have h3: "layerOptions (props ?c) = Some [(''filter'', JArr [JStr ''=='', JStr ''kind'', JStr ''road''])]"
    by (simp add: filter_props_def)
  have h4: "layerOptions refilter_props = Some [(''filter'', JArr [JStr ''=='', JStr ''kind'', JStr ''rail''])]"
    by (simp add: refilter_props_def)
  have h5: "\<not> same_content
                 (get [(''filter'', JArr [JStr ''=='', JStr ''kind'', JStr ''rail''])] ''filter'')
                 (get [(''filter'', JArr [JStr ''=='', JStr ''kind'', JStr ''road''])] ''filter'')"
    by (simp add: same_content_def get_def)
  show ?thesis
    using h5 changed_filter_is_set_on_every_layer
               [where isEqual = same_content, OF h1 h2 h3 h4 h5]
    by (simp add: mounted_component_fields buildLayerId_def types_def or_else_def get_def
        layer_filter_def refilter_props_def filter_props_def example_props_def)
qed

text \<open>
  C4 as stated fails when the current properties have no \<open>layerOptions\<close>: the next
  properties bring a filter, which differs from no filter at all, and the update makes no
  call.
\<close>

theorem filter_without_previous_layerOptions_is_not_set:
  "layerOptions (props mounted_component) = None
   \<and> layer_filter (props mounted_component) = None
   \<and> layer_filter filter_props = Some (JArr [JStr ''=='', JStr ''kind'', JStr ''road''])
   \<and> \<not> same_content (layer_filter filter_props) (layer_filter (props mounted_component))
   \<and> componentWillReceiveProps same_content filter_props mounted_component = Inr mounted_component"
proof -
  have "updateCalls same_content example_props filter_props ''g'' = []"
    by (simp add: updateCalls_def typeCalls_def filterCalls_def filterChanged_def paintCalls_def
        layoutCalls_def handlerCalls_def moveCalls_def types_def eventToHandler_def
        filter_props_def example_props_def prop_object_def prop_held_def contents_def prop_handler_def
        same_content_def Let_def)
  moreover have "strict_equal (data filter_props) (data example_props)"
    by (simp add: filter_props_def example_props_def)
  ultimately have "componentWillReceiveProps same_content filter_props mounted_component = Inr mounted_component"
    by (simp add: componentWillReceiveProps_run [OF mounted_component_fields(1)]
        mounted_component_fields performed_Nil)
  then show ?thesis
    by (simp add: mounted_component_fields layer_filter_def filter_props_def example_props_def
        same_content_def get_def)
qed

subsection \<open>A new data payload\<close>

text \<open>
  C5. When the \<open>data\<close> of the next properties is not the \<open>data\<close> of the current ones (by
  \<open>!==\<close>) and the source is registered on the map, \<open>componentWillReceiveProps\<close> returns, its
  first call is \<open>setData\<close> with the new payload on that source, no later call of the update
  adds or removes a source or a layer, and the registered sources and layers are the same
  after the update as before.
\<close>

theorem data_change_updates_in_place:
  assumes "context_map c = Some m"
    and "getSource (this_id c) m \<noteq> None"
    and "\<not> strict_equal (data nextProps) (data (props c))"
  shows "\<exists>c' m' rest.
           componentWillReceiveProps isEqual nextProps c = Inr c'
           \<and> context_map c' = Some m'
           \<and> calls m' = calls m @ SetData (this_id c) (data nextProps) # rest
           \<and> (\<forall>x \<in> set rest. \<not> structural x)
           \<and> sources m' = sources m \<and> layers m' = layers m"
proof -
  let ?rest = "updateCalls isEqual (props c) nextProps (this_id c)"
  let ?cs = "SetData (this_id c) (data nextProps) # ?rest"
  let ?c' = "performed ?cs (c\<lparr>source := make_source (sourceOptions nextProps) (data nextProps)\<rparr>)"
  have src: "this_id c \<in> set (sources m)"
    using assms(2) by (simp add: getSource_def split: if_splits)
  have run: "componentWillReceiveProps isEqual nextProps c = Inr ?c'"
    using assms(3) src by (simp add: componentWillReceiveProps_run [OF assms(1)])
  have ns: "\<forall>x \<in> set ?cs. \<not> structural x"
    by (auto dest: updateCalls_not_structural)
  have m': "context_map ?c' = Some (fold perform ?cs m)"
    using assms(1) by (simp add: performed_fields)
  have "calls (fold perform ?cs m) = calls m @ ?cs"
    by (rule calls_fold_perform)
  moreover have "sources (fold perform ?cs m) = sources m \<and> layers (fold perform ?cs m) = layers m"
    using ns by (rule fold_perform_not_structural)
  moreover have "\<forall>x \<in> set ?rest. \<not> structural x"
    by (auto dest: updateCalls_not_structural)
  ultimately show ?thesis
    using run m' by blast
qed

theorem data_change_updates_in_place_witness:
  "context_map mounted_component = Some mounted_map
   \<and> getSource (this_id mounted_component) mounted_map \<noteq> None
   \<and> \<not> strict_equal (data new_data_props) (data (props mounted_component))
   \<and> (\<exists>c' m' rest.
         componentWillReceiveProps same_content new_data_props mounted_component = Inr c'
         \<and> context_map c' = Some m'
         \<and> calls m' = calls mounted_map @ SetData ''g'' (data new_data_props) # rest
         \<and> (\<forall>x \<in> set rest. \<not> structural x)
         \<and> sources m' = sources mounted_map \<and> layers m' = layers mounted_map)"
proof -
  have h1: "context_map mounted_component = Some mounted_map"
    by (rule mounted_component_fields)
  have h2: "getSource (this_id mounted_component) mounted_map \<noteq> None"
    by (simp add: mounted_component_fields getSource_def mounted_map_def)
  have h3: "\<not> strict_equal (data new_data_props) (data (props mounted_component))"
    by (simp add: mounted_component_fields new_data_props_def example_props_def)
  show ?thesis
    using h1 h2 h3 data_change_updates_in_place [OF h1 h2 h3]
    by (simp add: mounted_component_fields)
qed

subsection \<open>Unmounting without a map or a style\<close>

text \<open>
  C6. \<open>componentWillUnmount\<close> on a component whose map is missing, or whose map has no
  style (\<open>getStyle\<close> returns nothing), returns normally and leaves the component and the map
  as they are: no call is recorded on the map, nothing registered changes.
\<close>

theorem unmount_without_style_is_noop:
  "context_map c = None \<or> (\<exists>m. context_map c = Some m \<and> getStyle m = None) \<Longrightarrow>
   componentWillUnmount c = Inr c"
  by (auto simp: componentWillUnmount_def)

theorem unmount_without_style_is_noop_witness:
  "componentWillUnmount (GeoJSONLayer example_props ''u'' None)
     = Inr (GeoJSONLayer example_props ''u'' None)
   \<and> componentWillUnmount (GeoJSONLayer example_props ''u'' (Some (empty_map\<lparr>style := None\<rparr>)))
     = Inr (GeoJSONLayer example_props ''u'' (Some (empty_map\<lparr>style := None\<rparr>)))"
  using unmount_without_style_is_noop [of "GeoJSONLayer example_props ''u'' None"]
    unmount_without_style_is_noop
      [of "GeoJSONLayer example_props ''u'' (Some (empty_map\<lparr>style := None\<rparr>))"]
  by (simp add: GeoJSONLayer_def getStyle_def empty_map_def)

subsection \<open>The order of unmounting\<close>

text \<open>
  C7, as the code has it. \<open>componentWillUnmount\<close> on a map that has a style returns, and
  its calls are, in this order: the removal of the \<open>styledata\<close> listener; the removal of the
  source, if it is registered; the removal of every mouse handler of the current
  properties, for every layer type; the removal of the layers of \<open>layerIds\<close> that are
  registered on the map, each once.
\<close>

theorem unmount_order:
  assumes "context_map c = Some m" and "getStyle m \<noteq> None"
  shows "\<exists>c' m'.
           componentWillUnmount c = Inr c'
           \<and> context_map c' = Some m'
           \<and> calls m' = calls m
               @ [OffMap ''styledata'']
               @ (if getSource (this_id c) m \<noteq> None then [RemoveSource (this_id c)] else [])
               @ handlerOffCalls (props c) (this_id c)
               @ map RemoveLayer (removeExisting (layerIds c) (layers m))
           \<and> set (removeExisting (layerIds c) (layers m)) = set (layerIds c) \<inter> set (layers m)
           \<and> distinct (removeExisting (layerIds c) (layers m))"
proof -
  let ?cs = "OffMap ''styledata'' # unbindCalls (props c) (this_id c) (layerIds c) m"
  have "componentWillUnmount c = Inr (performed ?cs c)"
    by (rule componentWillUnmount_run [OF assms])
  moreover have "context_map (performed ?cs c) = Some (fold perform ?cs m)"
    using assms(1) by (simp add: performed_fields)
  moreover have "calls (fold perform ?cs m) = calls m @ ?cs"
    by (rule calls_fold_perform)
  ultimately show ?thesis
    by (simp add: unbindCalls_def getSource_def set_removeExisting distinct_removeExisting)
qed

theorem unmount_order_witness:
  "context_map mounted_component = Some mounted_map
   \<and> getStyle mounted_map \<noteq> None
   \<and> (\<exists>c' m'.
         componentWillUnmount mounted_component = Inr c'
         \<and> context_map c' = Some m'
         \<and> calls m' = [OffMap ''styledata'', RemoveSource ''g'',
                        OffLayer ''click'' ''g-fill-extrusion'' 7,
                        RemoveLayer ''g-symbol'', RemoveLayer ''g-line'', RemoveLayer ''g-fill'',
                        RemoveLayer ''g-fill-extrusion'', RemoveLayer ''g-circle''])"
proof -
  have h1: "context_map mounted_component = Some mounted_map"
    by (rule mounted_component_fields)
  have h2: "getStyle mounted_map \<noteq> None"
    by (simp add: getStyle_def mounted_map_def)
  show ?thesis
    using h1 h2 unmount_order [OF h1 h2]
    by (simp add: mounted_component_fields mounted_component_layerIds handlerOffCalls_example
        getSource_def mounted_map_def)
qed

text \<open>
  C7 as stated puts the handlers before the source. On the mounted example the source is
  removed first, then the handler.
\<close>

theorem unmount_removes_source_before_handlers:
  "calls_of (componentWillUnmount mounted_component)
   = Some [OffMap ''styledata'', RemoveSource ''g'',
           OffLayer ''click'' ''g-fill-extrusion'' 7,
           RemoveLayer ''g-symbol'', RemoveLayer ''g-line'', RemoveLayer ''g-fill'',
           RemoveLayer ''g-fill-extrusion'', RemoveLayer ''g-circle'']"
proof -
  have h2: "getStyle mounted_map \<noteq> None"
    by (simp add: getStyle_def mounted_map_def)
  have "calls_of (componentWillUnmount mounted_component)
        = Some (calls mounted_map
                @ OffMap ''styledata''
                  # unbindCalls (props mounted_component) (this_id mounted_component)
                      (layerIds mounted_component) mounted_map)"
    by (simp only: componentWillUnmount_run [OF mounted_component_fields(1) h2]
        calls_of_performed [OF mounted_component_fields(1)])
  also have "calls mounted_map = []"
    by (simp add: mounted_map_def)
  finally show ?thesis
    by (simp add: mounted_component_fields mounted_component_layerIds unbindCalls_example)
qed

subsection \<open>A style change\<close>

text \<open>
  C8. On a \<open>styledata\<close> notification: when the source of the component is registered,
  \<open>onStyleDataChange\<close> changes nothing, whatever layers are registered; when it is not, the
  component unbinds (handlers, then the layers still registered), adds the source and the
  five layers again, and asks the framework once for a new rendering; the source is
  registered afterwards.
\<close>

theorem styledata_rebinds_only_without_source:
  assumes "context_map c = Some m"
  shows "(getSource (this_id c) m \<noteq> None \<longrightarrow> onStyleDataChange c = Inr c)
       \<and> (getSource (this_id c) m = None \<longrightarrow>
            (\<exists>c' m'.
               onStyleDataChange c = Inr c'
               \<and> context_map c' = Some m'
               \<and> forceUpdates c' = forceUpdates c + 1
               \<and> calls m' = calls m
                   @ handlerOffCalls (props c) (this_id c)
                   @ map RemoveLayer (removeExisting (layerIds c) (layers m))
                   @ AddSource (this_id c) (source c)
                     # concat (map (createLayerCalls (props c) (this_id c)) types)
               \<and> getSource (this_id c) m' \<noteq> None))"
proof (intro conjI impI)
  assume "getSource (this_id c) m \<noteq> None"
  then have "this_id c \<in> set (sources m)"
    by (simp add: getSource_def split: if_splits)
  then show "onStyleDataChange c = Inr c"
    by (simp add: onStyleDataChange_run [OF assms])
next
  assume "getSource (this_id c) m = None"
  then have absent: "this_id c \<notin> set (sources m)"
    by (simp add: getSource_def split: if_splits)
  let ?un = "unbindCalls (props c) (this_id c) (layerIds c) m"
  let ?layers = "concat (map (createLayerCalls (props c) (this_id c)) types)"
  let ?cs = "?un @ initializeCalls (props c) (this_id c) (source c)"
  let ?c' = "forceUpdate (performed ?cs (c\<lparr>layerIds := layerIds c @ map (buildLayerId c) types\<rparr>))"
  have run: "onStyleDataChange c = Inr ?c'"
    using absent by (simp add: onStyleDataChange_run [OF assms])
  have m': "context_map ?c' = Some (fold perform ?cs m)"
    using assms by (simp add: forceUpdate_def performed_fields)
  have f: "forceUpdates ?c' = forceUpdates c + 1"
    by (simp add: forceUpdate_def performed_fields)
  have cs: "calls (fold perform ?cs m) = calls m @ ?cs"
    by (rule calls_fold_perform)
  have un: "?un = handlerOffCalls (props c) (this_id c)
                  @ map RemoveLayer (removeExisting (layerIds c) (layers m))"
    using absent by (simp add: unbindCalls_def)
  have "sources (fold perform ?cs m)
        = sources (fold perform ?layers
            (perform (AddSource (this_id c) (source c)) (fold perform ?un m)))"
    by (simp add: initializeCalls_def)
  also have "\<dots> = sources (perform (AddSource (this_id c) (source c)) (fold perform ?un m))"
    by (rule sources_fold_perform) (auto dest: createLayerCalls_keep_sources)
  finally have "this_id c \<in> set (sources (fold perform ?cs m))"
    by (simp add: perform_def)
  then have src: "getSource (this_id c) (fold perform ?cs m) \<noteq> None"
    by (simp add: getSource_def)
  have "\<exists>c' m'.
               onStyleDataChange c = Inr c'
               \<and> context_map c' = Some m'
               \<and> forceUpdates c' = forceUpdates c + 1
               \<and> calls m' = calls m @ ?cs
               \<and> getSource (this_id c) m' \<noteq> None"
    using run m' f cs src by blast
  then show "\<exists>c' m'.
               onStyleDataChange c = Inr c'
               \<and> context_map c' = Some m'
               \<and> forceUpdates c' = forceUpdates c + 1
               \<and> calls m' = calls m
                   @ handlerOffCalls (props c) (this_id c)
                   @ map RemoveLayer (removeExisting (layerIds c) (layers m))
                   @ AddSource (this_id c) (source c)
                     # concat (map (createLayerCalls (props c) (this_id c)) types)
               \<and> getSource (this_id c) m' \<noteq> None"
    by (simp only: un initializeCalls_def append_assoc)
qed

theorem styledata_rebinds_only_without_source_witness:
  "context_map mounted_component = Some mounted_map
   \<and> getSource (this_id mounted_component) mounted_map \<noteq> None
   \<and> onStyleDataChange mounted_component = Inr mounted_component
   \<and> context_map (mounted_component\<lparr>context_map := Some (style_reset mounted_map)\<rparr>)
       = Some (style_reset mounted_map)
   \<and> getSource (this_id mounted_component) (style_reset mounted_map) = None
   \<and> (\<exists>c' m'.
         onStyleDataChange (mounted_component\<lparr>context_map := Some (style_reset mounted_map)\<rparr>) = Inr c'
         \<and> context_map c' = Some m'
         \<and> forceUpdates c' = 1
         \<and> getSource ''g'' m' \<noteq> None)"
proof -
  let ?c = "mounted_component\<lparr>context_map := Some (style_reset mounted_map)\<rparr>"
  have h1: "context_map mounted_component = Some mounted_map"
    by (rule mounted_component_fields)
  have h2: "getSource (this_id mounted_component) mounted_map \<noteq> None"
    by (simp add: mounted_component_fields getSource_def mounted_map_def)
  have g1: "context_map ?c = Some (style_reset mounted_map)"
    by simp
  have g2: "getSource (this_id mounted_component) (style_reset mounted_map) = None"
    by (simp add: getSource_def style_reset_def)
  have f0: "forceUpdates mounted_component = 0"
    by (simp add: mounted_component_def GeoJSONLayer_def)
  show ?thesis
    using h1 h2 g2 styledata_rebinds_only_without_source [OF h1]
      styledata_rebinds_only_without_source [OF g1]
    by (simp add: mounted_component_fields f0) blast
qed

subsection \<open>Layer identifiers\<close>




subsection \<open>\<open>setData\<close> without a source\<close>

text \<open>
  C10. \<open>componentWillReceiveProps\<close> calls \<open>setData\<close> on what \<open>getSource\<close> returns without
  looking at it. When the data changed and the source is registered, the update returns
  and \<open>setData\<close> is its first call; when the data changed and the source is not
  registered, the update ends in a \<open>TypeError\<close>.
\<close>

theorem setData_needs_source:
  assumes "context_map c = Some m"
    and "\<not> strict_equal (data nextProps) (data (props c))"
  shows "(getSource (this_id c) m = None \<longrightarrow> componentWillReceiveProps isEqual nextProps c = Inl TypeError)
       \<and> (getSource (this_id c) m \<noteq> None \<longrightarrow>
            (\<exists>c' m' rest. componentWillReceiveProps isEqual nextProps c = Inr c'
               \<and> context_map c' = Some m'
               \<and> calls m' = calls m @ SetData (this_id c) (data nextProps) # rest))"
proof (intro conjI impI)
  assume "getSource (this_id c) m = None"
  then have "this_id c \<notin> set (sources m)"
    by (simp add: getSource_def split: if_splits)
  then show "componentWillReceiveProps isEqual nextProps c = Inl TypeError"
    using assms(2) by (simp add: componentWillReceiveProps_run [OF assms(1)])
next
  assume "getSource (this_id c) m \<noteq> None"
  then have src: "this_id c \<in> set (sources m)"
    by (simp add: getSource_def split: if_splits)
  let ?cs = "SetData (this_id c) (data nextProps) # updateCalls isEqual (props c) nextProps (this_id c)"
  let ?c' = "performed ?cs (c\<lparr>source := make_source (sourceOptions nextProps) (data nextProps)\<rparr>)"
  have "componentWillReceiveProps isEqual nextProps c = Inr ?c'"
    using assms(2) src by (simp add: componentWillReceiveProps_run [OF assms(1)])
  moreover have "context_map ?c' = Some (fold perform ?cs m)"
    using assms(1) by (simp add: performed_fields)
  moreover have "calls (fold perform ?cs m) = calls m @ ?cs"
    by (rule calls_fold_perform)
  ultimately show "\<exists>c' m' rest. componentWillReceiveProps isEqual nextProps c = Inr c'
               \<and> context_map c' = Some m'
               \<and> calls m' = calls m @ SetData (this_id c) (data nextProps) # rest"
    by auto
qed

theorem setData_needs_source_witness:
  "context_map mounted_component = Some mounted_map
   \<and> getSource (this_id mounted_component) mounted_map \<noteq> None
   \<and> \<not> strict_equal (data new_data_props) (data (props mounted_component))
   \<and> (\<exists>c' m' rest.
         componentWillReceiveProps same_content new_data_props mounted_component = Inr c'
         \<and> context_map c' = Some m'
         \<and> calls m' = calls mounted_map @ SetData ''g'' (data new_data_props) # rest)
   \<and> context_map (mounted_component\<lparr>context_map := Some empty_map\<rparr>) = Some empty_map
   \<and> getSource (this_id mounted_component) empty_map = None
   \<and> componentWillReceiveProps same_content new_data_props (mounted_component\<lparr>context_map := Some empty_map\<rparr>)
       = Inl TypeError"
proof -
  have h1: "context_map mounted_component = Some mounted_map"
    by (rule mounted_component_fields)
  have h2: "getSource (this_id mounted_component) mounted_map \<noteq> None"
    by (simp add: mounted_component_fields getSource_def mounted_map_def)
  have h3: "\<not> strict_equal (data new_data_props) (data (props mounted_component))"
    by (simp add: mounted_component_fields new_data_props_def example_props_def)
  have g1: "context_map (mounted_component\<lparr>context_map := Some empty_map\<rparr>) = Some empty_map"
    by simp
  have g2: "getSource (this_id mounted_component) empty_map = None"
    by (simp add: getSource_def empty_map_def)
  have g3: "\<not> strict_equal (data new_data_props)
               (data (props (mounted_component\<lparr>context_map := Some empty_map\<rparr>)))"
    using h3 by simp
  show ?thesis
    using h1 h2 h3 g2 setData_needs_source [OF h1 h3] setData_needs_source [OF g1 g3]
    by (simp add: mounted_component_fields)
qed

end
